theory Spec2Isabelle
  imports Complex_Main
begin

section \<open>Numeric values\<close>

text \<open>
  The module \<^verbatim>\<open>pyscf/tools/cubegen.py\<close> computes two scalar fields on a grid.
  Its numbers are numpy float64 values. The finite ones are idealised here as
  real numbers (no rounding, overflow or underflow); the three kinds of
  non-finite value a division by zero can produce are kept apart, because numpy
  (in its default error state) returns them instead of raising.
\<close>

datatype npfloat = Fin real | PInf | NInf | NaN

fun isfinite :: "npfloat \<Rightarrow> bool" where
  "isfinite (Fin _) = True"
| "isfinite _ = False"

fun np_add :: "npfloat \<Rightarrow> npfloat \<Rightarrow> npfloat" where
  "np_add NaN _ = NaN"
| "np_add _ NaN = NaN"
| "np_add (Fin a) (Fin b) = Fin (a + b)"
| "np_add PInf NInf = NaN"
| "np_add NInf PInf = NaN"
| "np_add PInf _ = PInf"
| "np_add _ PInf = PInf"
| "np_add NInf _ = NInf"
| "np_add _ NInf = NInf"

fun np_negative :: "npfloat \<Rightarrow> npfloat" where
  "np_negative (Fin a) = Fin (- a)"
| "np_negative PInf = NInf"
| "np_negative NInf = PInf"
| "np_negative NaN = NaN"

definition np_subtract :: "npfloat \<Rightarrow> npfloat \<Rightarrow> npfloat" where
  "np_subtract a b = np_add a (np_negative b)"

text \<open>
  \<^verbatim>\<open>Z / d\<close> for a finite numerator and a finite divisor that is never a negative
  zero (here the divisor is a square root): a zero divisor gives an infinity
  of the numerator's sign, or NaN for \<^verbatim>\<open>0 / 0\<close>.
\<close>

definition np_divide :: "real \<Rightarrow> real \<Rightarrow> npfloat" where
  "np_divide a b =
     (if b = 0 then (if 0 < a then PInf else if a < 0 then NInf else NaN)
      else Fin (a / b))"

datatype error = InvalidGridDimension | EmptyMolecule | ValueError | TypeError

section \<open>The molecule and the external numerics\<close>

type_synonym vec3 = "real \<times> real \<times> real"

text \<open>
  Modelled from the spec: the class \<^verbatim>\<open>Mole\<close> is not among the sources. Following
  sections 3 and 4.3 of the specification, a molecule exposes its atom count,
  each atom's nuclear charge and position, and carries the origin of the
  one-electron \<^verbatim>\<open>rinv\<close> integrals, the only part of it that this module changes.
  \<^verbatim>\<open>set_rinv_orig_\<close> is \<open>set_rinv_orig\<close> here (a name cannot end in an underscore).
\<close>

record mol =
  atoms :: "(int \<times> vec3) list"
  basis :: string
  rinv_orig :: vec3

definition natm :: "mol \<Rightarrow> nat" where
  "natm m = length (atoms m)"

definition atom_charge :: "mol \<Rightarrow> nat \<Rightarrow> int" where
  "atom_charge m i = fst (atoms m ! i)"

definition atom_coord :: "mol \<Rightarrow> nat \<Rightarrow> vec3" where
  "atom_coord m i = snd (atoms m ! i)"

definition set_rinv_orig :: "mol \<Rightarrow> vec3 \<Rightarrow> mol" where
  "set_rinv_orig m p = m\<lparr>rinv_orig := p\<rparr>"

text \<open>
  A two-dimensional float array: its two extents and its entries. Always
  rectangular, as a numpy array is.
\<close>

record matrix =
  nrows :: nat
  ncols :: nat
  entry :: "nat \<Rightarrow> nat \<Rightarrow> real"

text \<open>
  What the module takes from outside this file. The numerics engine
  (\<^verbatim>\<open>numint.eval_ao\<close>, \<^verbatim>\<open>numint.eval_rho\<close>, \<^verbatim>\<open>mol.intor('cint1e_rinv_sph')\<close>) is
  arbitrary; \<open>heap_junk\<close> is the content of the memory that \<^verbatim>\<open>numpy.empty\<close>
  hands out; \<open>margin\<close> is the padding of the grid's box and \<open>stamp\<close> the second
  comment line of a cube file, both left open by the specification.
\<close>

record 'ao extern =
  eval_ao :: "mol \<Rightarrow> vec3 list \<Rightarrow> 'ao option \<Rightarrow> 'ao"
  eval_rho :: "mol \<Rightarrow> 'ao \<Rightarrow> matrix \<Rightarrow> npfloat list"
  intor_rinv :: "mol \<Rightarrow> matrix"
  heap_junk :: "nat \<Rightarrow> npfloat"
  margin :: real
  stamp :: string

section \<open>numpy operations used by the module\<close>

definition np_empty :: "'ao extern \<Rightarrow> nat \<Rightarrow> npfloat list" where
  "np_empty ex n = map (heap_junk ex) [0..<n]"

text \<open>Python's \<^verbatim>\<open>a[i0:i1]\<close> for \<^verbatim>\<open>0 \<le> i0\<close>: out-of-range bounds are clipped.\<close>

definition slice :: "'a list \<Rightarrow> nat \<Rightarrow> nat \<Rightarrow> 'a list" where
  "slice xs i0 i1 = take (i1 - i0) (drop i0 xs)"

text \<open>
  \<^verbatim>\<open>a[i0:i1] = v\<close> on a one-dimensional array: the value must have the length
  of the target slice, or length one (broadcast); otherwise numpy raises
  ValueError.
\<close>

definition setslice :: "npfloat list \<Rightarrow> nat \<Rightarrow> nat \<Rightarrow> npfloat list \<Rightarrow> error + npfloat list" where
  "setslice a i0 i1 v =
     (let n = length (slice a i0 i1) in
      if length v = n then Inr (take i0 a @ v @ drop (i0 + n) a)
      else if length v = 1 then Inr (take i0 a @ replicate n (hd v) @ drop (i0 + n) a)
      else Inl ValueError)"

record ndarray =
  shape :: "nat list"
  data :: "npfloat list"

text \<open>
  \<^verbatim>\<open>a.reshape(nx, ny, nz)\<close> with non-negative extents: the flat data is kept (C
  order) and only the shape changes; a size mismatch raises ValueError.
\<close>

definition reshape :: "npfloat list \<Rightarrow> nat \<Rightarrow> nat \<Rightarrow> nat \<Rightarrow> error + ndarray" where
  "reshape a nx ny nz =
     (if length a = nx * ny * nz then Inr \<lparr>shape = [nx, ny, nz], data = a\<rparr>
      else Inl ValueError)"

text \<open>\<^verbatim>\<open>numpy.einsum('xi,xi->x', a, b)\<close> on two arrays of shape (n, 3).\<close>

definition einsum_xi_xi :: "vec3 list \<Rightarrow> vec3 list \<Rightarrow> real list" where
  "einsum_xi_xi a b =
     map2 (\<lambda>(a0, a1, a2) (b0, b1, b2). a0 * b0 + a1 * b1 + a2 * b2) a b"

text \<open>
  \<^verbatim>\<open>numpy.einsum('ij,ij', A, B)\<close>: the sum of the element-wise product. Extents
  must agree, an extent of one being broadcast; otherwise ValueError.
\<close>

definition bcast :: "nat \<Rightarrow> nat \<Rightarrow> nat option" where
  "bcast m n = (if m = n then Some m else if m = 1 then Some n
                else if n = 1 then Some m else None)"

definition bget :: "matrix \<Rightarrow> nat \<Rightarrow> nat \<Rightarrow> real" where
  "bget A i j = entry A (if nrows A = 1 then 0 else i) (if ncols A = 1 then 0 else j)"

definition einsum_ij_ij :: "matrix \<Rightarrow> matrix \<Rightarrow> error + real" where
  "einsum_ij_ij A B =
     (case (bcast (nrows A) (nrows B), bcast (ncols A) (ncols B)) of
        (Some r, Some c) \<Rightarrow>
          Inr (sum_list (map (\<lambda>i. sum_list (map (\<lambda>j. bget A i j * bget B i j) [0..<c])) [0..<r]))
      | _ \<Rightarrow> Inl ValueError)"

section \<open>The grid and the cube file\<close>

text \<open>
  Modelled from the spec: the class \<^verbatim>\<open>cube_c\<close> of \<^verbatim>\<open>pyscf.tools.m_cube\<close> is not
  among the sources. Following sections 3, 4.1 and 7 of the specification: the
  grid is built from a molecule with at least one atom and three positive
  extents; non-positive extents are rejected; the box spans the atoms'
  coordinates, widened by the margin, and starts half a margin below the least
  coordinate; the points are listed with x outermost and z innermost; the point
  count is \<open>nx * ny * nz\<close>.
\<close>

record cube =
  cc_mol :: mol
  cc_nx :: nat
  cc_ny :: nat
  cc_nz :: nat
  boxorig :: vec3
  box :: vec3

definition cube_c :: "'ao extern \<Rightarrow> mol \<Rightarrow> int \<Rightarrow> int \<Rightarrow> int \<Rightarrow> error + cube" where
  "cube_c ex m nx ny nz =
     (if nx \<le> 0 \<or> ny \<le> 0 \<or> nz \<le> 0 then Inl InvalidGridDimension
      else if atoms m = [] then Inl EmptyMolecule
      else
        let xs = map (\<lambda>(Z, x, y, z). x) (atoms m);
            ys = map (\<lambda>(Z, x, y, z). y) (atoms m);
            zs = map (\<lambda>(Z, x, y, z). z) (atoms m);
            lo = (fold min (tl xs) (hd xs), fold min (tl ys) (hd ys), fold min (tl zs) (hd zs));
            hi = (fold max (tl xs) (hd xs), fold max (tl ys) (hd ys), fold max (tl zs) (hd zs))
        in Inr \<lparr>cc_mol = m, cc_nx = nat nx, cc_ny = nat ny, cc_nz = nat nz,
                boxorig = (case lo of (x, y, z) \<Rightarrow>
                             (x - margin ex / 2, y - margin ex / 2, z - margin ex / 2)),
                box = (case (lo, hi) of ((x0, y0, z0), (x1, y1, z1)) \<Rightarrow>
                         (x1 - x0 + margin ex, y1 - y0 + margin ex, z1 - z0 + margin ex))\<rparr>)"

definition get_coords :: "cube \<Rightarrow> vec3 list" where
  "get_coords cc =
     (case (boxorig cc, box cc) of ((ox, oy, oz), (bx, by, bz)) \<Rightarrow>
        concat (map (\<lambda>i.
          concat (map (\<lambda>j.
            map (\<lambda>k. (ox + real i * (bx / real (cc_nx cc)),
                       oy + real j * (by / real (cc_ny cc)),
                       oz + real k * (bz / real (cc_nz cc))))
                [0..<cc_nz cc])
            [0..<cc_ny cc]))
          [0..<cc_nx cc]))"

definition get_ngrids :: "cube \<Rightarrow> nat" where
  "get_ngrids cc = cc_nx cc * cc_ny cc * cc_nz cc"

text \<open>
  Modelled from the spec: the method \<^verbatim>\<open>cube_c.write\<close> is not among the sources.
  Following section 4.4, a cube file holds two comment lines, the atom count and
  the grid origin, one line per axis (point count and voxel vector), one line
  per atom (charge twice, then the position) and the values in the grid's order.
  The text layout of the numbers is left out. Writing creates or overwrites the
  named file.
\<close>

record cube_file =
  f_comment :: string
  f_stamp :: string
  f_natm :: nat
  f_origin :: vec3
  f_axes :: "(nat \<times> vec3) list"
  f_atoms :: "(int \<times> int \<times> vec3) list"
  f_body :: "npfloat list"

type_synonym files = "string \<rightharpoonup> cube_file"

definition cube_write :: "'ao extern \<Rightarrow> cube \<Rightarrow> ndarray \<Rightarrow> string \<Rightarrow> string \<Rightarrow> files \<Rightarrow> files" where
  "cube_write ex cc field fname comment fs =
     fs(fname \<mapsto>
       \<lparr>f_comment = comment, f_stamp = stamp ex,
        f_natm = natm (cc_mol cc), f_origin = boxorig cc,
        f_axes = (case box cc of (bx, by, bz) \<Rightarrow>
                    [(cc_nx cc, (bx / real (cc_nx cc), 0, 0)),
                     (cc_ny cc, (0, by / real (cc_ny cc), 0)),
                     (cc_nz cc, (0, 0, bz / real (cc_nz cc)))]),
        f_atoms = map (\<lambda>(Z, r). (Z, Z, r)) (atoms (cc_mol cc)),
        f_body = data field\<rparr>)"

text \<open>
  Modelled from the spec: \<^verbatim>\<open>gen_grid.prange\<close> is not among the sources. Following
  section 4.2, it yields the consecutive index ranges of at most \<open>step\<close> points
  from \<open>start\<close> up to \<open>stop\<close>. A step of zero is an error, as for Python's
  \<^verbatim>\<open>range\<close>.
\<close>

function prange_from :: "nat \<Rightarrow> nat \<Rightarrow> nat \<Rightarrow> (nat \<times> nat) list" where
  "prange_from i stop step =
     (if step = 0 \<or> stop \<le> i then []
      else (i, min (i + step) stop) # prange_from (i + step) stop step)"
  by pat_completeness auto
termination
  by (relation "measure (\<lambda>(i, stop, step). stop - i)") auto

declare prange_from.simps [simp del]

definition prange :: "nat \<Rightarrow> nat \<Rightarrow> nat \<Rightarrow> error + (nat \<times> nat) list" where
  "prange start stop step =
     (if step = 0 then Inl ValueError else Inr (prange_from start stop step))"

section \<open>The module: density\<close>

text \<open>Python's default arguments: an omitted argument takes the default.\<close>

definition dflt :: "int \<Rightarrow> int option \<Rightarrow> int" where
  "dflt d a = (case a of None \<Rightarrow> d | Some v \<Rightarrow> v)"

text \<open>
  The loop of \<^verbatim>\<open>density\<close> (lines 39 to 41): for each index range, the orbital
  values on that slice of the coordinates (reusing the previous buffer as
  \<^verbatim>\<open>out\<close>), and the density written into the same slice of \<^verbatim>\<open>rho\<close>.
\<close>

fun density_loop ::
  "'ao extern \<Rightarrow> mol \<Rightarrow> matrix \<Rightarrow> vec3 list \<Rightarrow> (nat \<times> nat) list \<Rightarrow> 'ao option \<Rightarrow>
   npfloat list \<Rightarrow> error + npfloat list" where
  "density_loop ex m dm coords [] ao rho = Inr rho"
| "density_loop ex m dm coords ((ip0, ip1) # rest) ao rho =
     (let ao' = eval_ao ex m (slice coords ip0 ip1) ao in
      case setslice rho ip0 ip1 (eval_rho ex m ao' dm) of
        Inl e \<Rightarrow> Inl e
      | Inr rho' \<Rightarrow> density_loop ex m dm coords rest (Some ao') rho')"

text \<open>Lines 34 to 41, with the block size as a parameter.\<close>

definition density_rho :: "'ao extern \<Rightarrow> mol \<Rightarrow> matrix \<Rightarrow> cube \<Rightarrow> nat \<Rightarrow> error + npfloat list" where
  "density_rho ex m dm cc blksize =
     (let coords = get_coords cc;
          ngrids = get_ngrids cc;
          rho = np_empty ex ngrids
      in case prange 0 ngrids blksize of
           Inl e \<Rightarrow> Inl e
         | Inr chunks \<Rightarrow> density_loop ex m dm coords chunks None rho)"

text \<open>Lines 42 to 44: the reshape and the write.\<close>

definition density_finish ::
  "'ao extern \<Rightarrow> cube \<Rightarrow> npfloat list \<Rightarrow> string \<Rightarrow> files \<Rightarrow> error option \<times> files" where
  "density_finish ex cc rho outfile fs =
     (case reshape rho (cc_nx cc) (cc_ny cc) (cc_nz cc) of
        Inl e \<Rightarrow> (Some e, fs)
      | Inr rho3 \<Rightarrow>
          (None, cube_write ex cc rho3 outfile ''Electron density in real space (e/Bohr^3)'' fs))"

definition density_on_grid ::
  "'ao extern \<Rightarrow> mol \<Rightarrow> string \<Rightarrow> matrix \<Rightarrow> cube \<Rightarrow> files \<Rightarrow> error option \<times> files" where
  "density_on_grid ex m outfile dm cc fs =
     (case density_rho ex m dm cc (min 8000 (get_ngrids cc)) of
        Inl e \<Rightarrow> (Some e, fs)
      | Inr rho \<Rightarrow> density_finish ex cc rho outfile fs)"

text \<open>
  \<^verbatim>\<open>density(mol, outfile, dm, nx=80, ny=80, nz=80)\<close>: the result is the exception
  raised, if any, and the files afterwards.
\<close>

definition density ::
  "'ao extern \<Rightarrow> mol \<Rightarrow> string \<Rightarrow> matrix \<Rightarrow> int option \<Rightarrow> int option \<Rightarrow> int option \<Rightarrow>
   files \<Rightarrow> error option \<times> files" where
  "density ex m outfile dm nx ny nz fs =
     (case cube_c ex m (dflt 80 nx) (dflt 80 ny) (dflt 80 nz) of
        Inl e \<Rightarrow> (Some e, fs)
      | Inr cc \<Rightarrow> density_on_grid ex m outfile dm cc fs)"

section \<open>The module: mep\<close>

text \<open>
  \<^verbatim>\<open>Vnuc\<close> starts as the Python integer 0 and becomes an array at the first
  \<^verbatim>\<open>+=\<close>. Every array here has one entry per grid point.
\<close>

datatype pyval = PyInt int | NdArray "npfloat list"

fun py_iadd :: "pyval \<Rightarrow> npfloat list \<Rightarrow> pyval" where
  "py_iadd (PyInt n) a = NdArray (map (np_add (Fin (real_of_int n))) a)"
| "py_iadd (NdArray v) a = NdArray (map2 np_add v a)"

definition vsub :: "vec3 \<Rightarrow> vec3 \<Rightarrow> vec3" where
  "vsub r c = (case (r, c) of ((r0, r1, r2), (c0, c1, c2)) \<Rightarrow> (r0 - c0, r1 - c1, r2 - c2))"

text \<open>The right-hand side of line 72 for atom \<open>i\<close> (lines 69 to 72).\<close>

definition nuc_term :: "mol \<Rightarrow> vec3 list \<Rightarrow> nat \<Rightarrow> npfloat list" where
  "nuc_term m coords i =
     (let r = atom_coord m i;
          Z = atom_charge m i;
          rp = map (vsub r) coords
      in map (\<lambda>s. np_divide (real_of_int Z) (sqrt s)) (einsum_xi_xi rp rp))"

text \<open>Lines 67 to 72.\<close>

definition nuclear_potential :: "mol \<Rightarrow> vec3 list \<Rightarrow> pyval" where
  "nuclear_potential m coords =
     foldl (\<lambda>Vnuc i. py_iadd Vnuc (nuc_term m coords i)) (PyInt 0) [0..<natm m]"

text \<open>
  Lines 75 to 78: per point, the origin is moved and the integral matrix is
  contracted with the density matrix. The molecule is threaded through.
\<close>

fun electron_potential ::
  "'ao extern \<Rightarrow> mol \<Rightarrow> matrix \<Rightarrow> vec3 list \<Rightarrow> real list \<Rightarrow> mol \<times> (error + real list)" where
  "electron_potential ex m dm [] Vele = (m, Inr Vele)"
| "electron_potential ex m dm (p # ps) Vele =
     (let m' = set_rinv_orig m p in
      case einsum_ij_ij (intor_rinv ex m') dm of
        Inl e \<Rightarrow> (m', Inl e)
      | Inr v \<Rightarrow> electron_potential ex m' dm ps (Vele @ [v]))"

text \<open>
  Line 80, \<^verbatim>\<open>Vnuc - Vele\<close> with \<^verbatim>\<open>Vele\<close> a Python list: an integer minus a list is
  a TypeError; an array minus a list is taken element by element.
\<close>

fun py_sub :: "pyval \<Rightarrow> real list \<Rightarrow> error + npfloat list" where
  "py_sub (PyInt n) Vele = Inl TypeError"
| "py_sub (NdArray v) Vele = Inr (map2 np_subtract v (map Fin Vele))"

text \<open>Lines 67 to 82: the flat array of potential values.\<close>

definition mep_values ::
  "'ao extern \<Rightarrow> mol \<Rightarrow> matrix \<Rightarrow> vec3 list \<Rightarrow> mol \<times> (error + npfloat list)" where
  "mep_values ex m dm coords =
     (let Vnuc = nuclear_potential m coords in
      case electron_potential ex m dm coords [] of
        (m', Inl e) \<Rightarrow> (m', Inl e)
      | (m', Inr Vele) \<Rightarrow> (m', py_sub Vnuc Vele))"

text \<open>
  Lines 83 to 85: the reshape to the extents given to \<^verbatim>\<open>mep\<close>, and the write.
  The extents are positive when this point is reached, the grid having been built.
\<close>

definition mep_finish ::
  "'ao extern \<Rightarrow> cube \<Rightarrow> npfloat list \<Rightarrow> nat \<Rightarrow> nat \<Rightarrow> nat \<Rightarrow> string \<Rightarrow> files \<Rightarrow>
   error option \<times> files" where
  "mep_finish ex cc MEP nx ny nz outfile fs =
     (case reshape MEP nx ny nz of
        Inl e \<Rightarrow> (Some e, fs)
      | Inr MEP3 \<Rightarrow>
          (None, cube_write ex cc MEP3 outfile
                   ''Molecular electrostatic potential in real space'' fs))"

definition mep_on_grid ::
  "'ao extern \<Rightarrow> mol \<Rightarrow> string \<Rightarrow> matrix \<Rightarrow> nat \<Rightarrow> nat \<Rightarrow> nat \<Rightarrow> cube \<Rightarrow> files \<Rightarrow>
   error option \<times> mol \<times> files" where
  "mep_on_grid ex m outfile dm nx ny nz cc fs =
     (case mep_values ex m dm (get_coords cc) of
        (m', Inl e) \<Rightarrow> (Some e, m', fs)
      | (m', Inr MEP) \<Rightarrow>
          (case mep_finish ex cc MEP nx ny nz outfile fs of (r, fs') \<Rightarrow> (r, m', fs')))"

text \<open>
  \<^verbatim>\<open>mep(mol, outfile, dm, nx=80, ny=80, nz=80)\<close>: the result is the exception
  raised, if any, the molecule afterwards and the files afterwards.
\<close>

definition mep ::
  "'ao extern \<Rightarrow> mol \<Rightarrow> string \<Rightarrow> matrix \<Rightarrow> int option \<Rightarrow> int option \<Rightarrow> int option \<Rightarrow>
   files \<Rightarrow> error option \<times> mol \<times> files" where
  "mep ex m outfile dm nx ny nz fs =
     (case cube_c ex m (dflt 80 nx) (dflt 80 ny) (dflt 80 nz) of
        Inl e \<Rightarrow> (Some e, m, fs)
      | Inr cc \<Rightarrow>
          mep_on_grid ex m outfile dm (nat (dflt 80 nx)) (nat (dflt 80 ny)) (nat (dflt 80 nz))
            cc fs)"

section \<open>The potential in the specification's words\<close>

text \<open>
  Section 4.3 of the specification: the nuclear term at a point \<open>p\<close> is the sum
  over all atoms of \<open>Z / |r - p|\<close>; the electronic term at \<open>p\<close> is the
  contraction of the density matrix with the integral matrix evaluated with the
  origin at \<open>p\<close>; the potential is their difference.
\<close>

definition spec_distance :: "vec3 \<Rightarrow> vec3 \<Rightarrow> real" where
  "spec_distance r p =
     (case (r, p) of ((r0, r1, r2), (p0, p1, p2)) \<Rightarrow>
        sqrt ((r0 - p0)\<^sup>2 + (r1 - p1)\<^sup>2 + (r2 - p2)\<^sup>2))"

definition np_sum :: "npfloat list \<Rightarrow> npfloat" where
  "np_sum xs = foldr np_add xs (Fin 0)"

definition spec_nuclear_term :: "mol \<Rightarrow> vec3 \<Rightarrow> npfloat" where
  "spec_nuclear_term m p =
     np_sum (map (\<lambda>(Z, r). np_divide (real_of_int Z) (spec_distance r p)) (atoms m))"

definition spec_electronic_term :: "'ao extern \<Rightarrow> mol \<Rightarrow> matrix \<Rightarrow> vec3 \<Rightarrow> error + real" where
  "spec_electronic_term ex m dm p = einsum_ij_ij (intor_rinv ex (m\<lparr>rinv_orig := p\<rparr>)) dm"

section \<open>The values the loop of density writes\<close>

text \<open>
  The arrays that \<^verbatim>\<open>numint.eval_rho\<close> returns along the loop of \<open>density\<close>, one per
  index range, with the orbital buffer handed from one turn to the next as the
  loop does.
\<close>

fun chunk_values ::
  "'ao extern \<Rightarrow> mol \<Rightarrow> matrix \<Rightarrow> vec3 list \<Rightarrow> (nat \<times> nat) list \<Rightarrow> 'ao option \<Rightarrow>
   npfloat list list" where
  "chunk_values ex m dm coords [] ao = []"
| "chunk_values ex m dm coords ((ip0, ip1) # rest) ao =
     (let ao' = eval_ao ex m (slice coords ip0 ip1) ao in
      eval_rho ex m ao' dm # chunk_values ex m dm coords rest (Some ao'))"

section \<open>The nuclear term with float64 underflow\<close>

text \<open>
  A float64 result of magnitude at most \<open>2\<^sup>-\<^sup>1\<^sup>0\<^sup>7\<^sup>5\<close>, half the least positive
  float64, is rounded to zero. \<open>f64_flush\<close> keeps this one effect of rounding
  and leaves every larger result exact. In line 72 only the products and
  their sums can lose a nonzero value this way: the difference of two distinct
  float64 values is never zero, and a square root of a positive float64 is far
  above the threshold.
\<close>

definition f64_tiny :: real where
  "f64_tiny = 1 / 2 ^ 1075"

definition f64_flush :: "real \<Rightarrow> real" where
  "f64_flush x = (if \<bar>x\<bar> \<le> f64_tiny then 0 else x)"

text \<open>\<^verbatim>\<open>numpy.einsum('xi,xi->x', a, b)\<close> with every product and sum rounded so.\<close>

definition einsum_xi_xi_f64 :: "vec3 list \<Rightarrow> vec3 list \<Rightarrow> real list" where
  "einsum_xi_xi_f64 a b =
     map2 (\<lambda>(a0, a1, a2) (b0, b1, b2).
             f64_flush (f64_flush (f64_flush (a0 * b0) + f64_flush (a1 * b1))
                        + f64_flush (a2 * b2))) a b"

text \<open>
  Lines 67 to 85 once more, \<open>mep\<close> with that rounding in line 72 and otherwise
  word for word as above.
\<close>

definition nuc_term_f64 :: "mol \<Rightarrow> vec3 list \<Rightarrow> nat \<Rightarrow> npfloat list" where
  "nuc_term_f64 m coords i =
     (let r = atom_coord m i;
          Z = atom_charge m i;
          rp = map (vsub r) coords
      in map (\<lambda>s. np_divide (real_of_int Z) (sqrt s)) (einsum_xi_xi_f64 rp rp))"

definition nuclear_potential_f64 :: "mol \<Rightarrow> vec3 list \<Rightarrow> pyval" where
  "nuclear_potential_f64 m coords =
     foldl (\<lambda>Vnuc i. py_iadd Vnuc (nuc_term_f64 m coords i)) (PyInt 0) [0..<natm m]"

definition mep_values_f64 ::
  "'ao extern \<Rightarrow> mol \<Rightarrow> matrix \<Rightarrow> vec3 list \<Rightarrow> mol \<times> (error + npfloat list)" where
  "mep_values_f64 ex m dm coords =
     (let Vnuc = nuclear_potential_f64 m coords in
      case electron_potential ex m dm coords [] of
        (m', Inl e) \<Rightarrow> (m', Inl e)
      | (m', Inr Vele) \<Rightarrow> (m', py_sub Vnuc Vele))"

definition mep_on_grid_f64 ::
  "'ao extern \<Rightarrow> mol \<Rightarrow> string \<Rightarrow> matrix \<Rightarrow> nat \<Rightarrow> nat \<Rightarrow> nat \<Rightarrow> cube \<Rightarrow> files \<Rightarrow>
   error option \<times> mol \<times> files" where
  "mep_on_grid_f64 ex m outfile dm nx ny nz cc fs =
     (case mep_values_f64 ex m dm (get_coords cc) of
        (m', Inl e) \<Rightarrow> (Some e, m', fs)
      | (m', Inr MEP) \<Rightarrow>
          (case mep_finish ex cc MEP nx ny nz outfile fs of (r, fs') \<Rightarrow> (r, m', fs')))"

definition mep_f64 ::
  "'ao extern \<Rightarrow> mol \<Rightarrow> string \<Rightarrow> matrix \<Rightarrow> int option \<Rightarrow> int option \<Rightarrow> int option \<Rightarrow>
   files \<Rightarrow> error option \<times> mol \<times> files" where
  "mep_f64 ex m outfile dm nx ny nz fs =
     (case cube_c ex m (dflt 80 nx) (dflt 80 ny) (dflt 80 nz) of
        Inl e \<Rightarrow> (Some e, m, fs)
      | Inr cc \<Rightarrow>
          mep_on_grid_f64 ex m outfile dm (nat (dflt 80 nx)) (nat (dflt 80 ny))
            (nat (dflt 80 nz)) cc fs)"

text \<open>
  The divisor of line 72 for one atom position \<open>r\<close> and one point \<open>p\<close> under that
  rounding, and the sum of the quotients over the atoms.
\<close>

definition f64_distance :: "vec3 \<Rightarrow> vec3 \<Rightarrow> real" where
  "f64_distance r p =
     (case (r, p) of ((r0, r1, r2), (p0, p1, p2)) \<Rightarrow>
        sqrt (f64_flush (f64_flush (f64_flush ((r0 - p0) * (r0 - p0))
                                    + f64_flush ((r1 - p1) * (r1 - p1)))
                         + f64_flush ((r2 - p2) * (r2 - p2)))))"

definition f64_nuclear_term :: "mol \<Rightarrow> vec3 \<Rightarrow> npfloat" where
  "f64_nuclear_term m p =
     np_sum (map (\<lambda>(Z, r). np_divide (real_of_int Z) (f64_distance r p)) (atoms m))"

section \<open>Concrete data\<close>

text \<open>
  A small engine whose orbital buffer is the list of points and whose density
  at a point is the point's x coordinate times the first entry of the density
  matrix (so it can be negative); its integral matrix is the 1 by 1 matrix
  holding the x coordinate of the current origin.
\<close>

definition toy_engine :: "(vec3 list) extern" where
  "toy_engine =
     \<lparr>eval_ao = (\<lambda>m cs out. cs),
      eval_rho = (\<lambda>m ao dm. map (\<lambda>(x, y, z). Fin (x * entry dm 0 0)) ao),
      intor_rinv = (\<lambda>m. \<lparr>nrows = 1, ncols = 1, entry = (\<lambda>i j. fst (rinv_orig m))\<rparr>),
      heap_junk = (\<lambda>k. NaN),
      margin = 6,
      stamp = ''cube''\<rparr>"

definition one_atom :: mol where
  "one_atom = \<lparr>atoms = [(1, (0, 0, 0))], basis = ''sto-3g'', rinv_orig = (0, 0, 0)\<rparr>"

definition two_atoms :: mol where
  "two_atoms = \<lparr>atoms = [(1, (0, 0, 0)), (1, (2, 0, 0))], basis = ''sto-3g'',
                 rinv_orig = (0, 0, 0)\<rparr>"

definition unit_dm :: matrix where
  "unit_dm = \<lparr>nrows = 1, ncols = 1, entry = (\<lambda>i j. 1)\<rparr>"

text \<open>The grid of \<open>one_atom\<close> with two points per axis and a margin of 6.\<close>

definition small_grid :: cube where
  "small_grid = \<lparr>cc_mol = one_atom, cc_nx = 2, cc_ny = 2, cc_nz = 2,
                  boxorig = (- 3, - 3, - 3), box = (6, 6, 6)\<rparr>"

text \<open>The grid of \<open>two_atoms\<close> with two points per axis and a margin of 6.\<close>

definition wide_grid :: cube where
  "wide_grid = \<lparr>cc_mol = two_atoms, cc_nx = 2, cc_ny = 2, cc_nz = 2,
                 boxorig = (- 3, - 3, - 3), box = (8, 6, 6)\<rparr>"

text \<open>
  Two atoms \<open>near_eps\<close> (\<open>2\<^sup>-\<^sup>7\<^sup>0\<^sup>0\<close>, a float64) on either side of the origin, and their grid with two
  points per axis and a margin of 6: its last point is the origin, which lies
  on neither atom.
\<close>

definition near_eps :: real where
  "near_eps = 1 / 2 ^ 700"

definition near_atoms :: mol where
  "near_atoms = \<lparr>atoms = [(1, (near_eps, 0, 0)), (1, (- near_eps, 0, 0))],
                  basis = ''sto-3g'', rinv_orig = (0, 0, 0)\<rparr>"

definition near_grid :: cube where
  "near_grid = \<lparr>cc_mol = near_atoms, cc_nx = 2, cc_ny = 2, cc_nz = 2,
                 boxorig = (- near_eps - 3, - 3, - 3),
                 box = (near_eps - (- near_eps) + 6, 6, 6)\<rparr>"

section \<open>The grid\<close>

lemma length_concat_const:
  "length (concat (map (\<lambda>i. f i) [0..<n])) = n * c" if "\<And>i. length (f i) = c"
  using that by (induction n) simp_all

lemma length_get_coords: "length (get_coords cc) = get_ngrids cc"
proof -
  obtain ox oy oz where o: "boxorig cc = (ox, oy, oz)" by (cases "boxorig cc") auto
  obtain bx "by" bz where b: "box cc = (bx, by, bz)" by (cases "box cc") auto
  show ?thesis
    by (simp add: get_coords_def get_ngrids_def o b length_concat_const)
qed

lemma cube_c_ok:
  assumes "0 < nx" "0 < ny" "0 < nz" "atoms m \<noteq> []"
  shows "\<exists>cc. cube_c ex m nx ny nz = Inr cc \<and> cc_mol cc = m
           \<and> cc_nx cc = nat nx \<and> cc_ny cc = nat ny \<and> cc_nz cc = nat nz"
  using assms by (simp add: cube_c_def Let_def)

text \<open>
  C4. A call of \<open>density\<close> or \<open>mep\<close> with an extent that is zero or negative is
  rejected by the grid builder: the result is the error, whatever the engine
  is (it is never consulted), no file is written and the molecule is as it was.
\<close>

theorem nonpositive_dimension_rejected:
  assumes "nx \<le> 0 \<or> ny \<le> 0 \<or> nz \<le> 0"
  shows "density ex m outfile dm (Some nx) (Some ny) (Some nz) fs
           = (Some InvalidGridDimension, fs)
       \<and> mep ex m outfile dm (Some nx) (Some ny) (Some nz) fs
           = (Some InvalidGridDimension, m, fs)"
  using assms by (simp add: density_def mep_def cube_c_def dflt_def)

theorem nonpositive_dimension_rejected_witness:
  "((0::int) \<le> 0 \<or> (4::int) \<le> 0 \<or> (- 2::int) \<le> 0)
   \<and> density toy_engine one_atom ''den.cube'' unit_dm (Some 0) (Some 4) (Some (- 2)) Map.empty
       = (Some InvalidGridDimension, Map.empty)
   \<and> mep toy_engine one_atom ''pot.cube'' unit_dm (Some 0) (Some 4) (Some (- 2)) Map.empty
       = (Some InvalidGridDimension, one_atom, Map.empty)"
  using nonpositive_dimension_rejected
          [of 0 4 "- 2" toy_engine one_atom "''den.cube''" unit_dm Map.empty]
        nonpositive_dimension_rejected
          [of 0 4 "- 2" toy_engine one_atom "''pot.cube''" unit_dm Map.empty]
  by simp

text \<open>
  C10. With the three extents omitted, \<open>density\<close> and \<open>mep\<close> build the grid with
  80 points along each axis, 512000 points in all, and evaluate the field on it.
\<close>

theorem default_grid_is_80:
  assumes "atoms m \<noteq> []"
  shows "\<exists>cc. cube_c ex m 80 80 80 = Inr cc
           \<and> cc_nx cc = 80 \<and> cc_ny cc = 80 \<and> cc_nz cc = 80
           \<and> length (get_coords cc) = 512000
           \<and> density ex m outfile dm None None None fs = density_on_grid ex m outfile dm cc fs
           \<and> mep ex m outfile dm None None None fs
               = mep_on_grid ex m outfile dm 80 80 80 cc fs"
proof -
  from cube_c_ok [of 80 80 80 m ex] assms obtain cc where
    cc: "cube_c ex m 80 80 80 = Inr cc" "cc_nx cc = 80" "cc_ny cc = 80" "cc_nz cc = 80"
    by auto
  have "length (get_coords cc) = 512000"
    by (simp add: length_get_coords get_ngrids_def cc)
  with cc show ?thesis
    by (simp add: density_def mep_def dflt_def)
qed

theorem default_grid_is_80_witness:
  "atoms one_atom \<noteq> []
   \<and> (\<exists>cc. cube_c toy_engine one_atom 80 80 80 = Inr cc
           \<and> cc_nx cc = 80 \<and> cc_ny cc = 80 \<and> cc_nz cc = 80
           \<and> length (get_coords cc) = 512000
           \<and> density toy_engine one_atom ''out.cube'' unit_dm None None None Map.empty
               = density_on_grid toy_engine one_atom ''out.cube'' unit_dm cc Map.empty
           \<and> mep toy_engine one_atom ''out.cube'' unit_dm None None None Map.empty
               = mep_on_grid toy_engine one_atom ''out.cube'' unit_dm 80 80 80 cc Map.empty)"
proof -
  have h: "atoms one_atom \<noteq> []" by (simp add: one_atom_def)
  show ?thesis
    using h default_grid_is_80 [OF h, of toy_engine "''out.cube''" unit_dm Map.empty]
    by simp
qed


section \<open>The index ranges and the loop of density\<close>

lemma prange_from_bounds:
  "(a, b) \<in> set (prange_from i n s) \<Longrightarrow> i \<le> a \<and> a < b \<and> b \<le> n \<and> b - a \<le> s"
proof (induction i n s rule: prange_from.induct)
  case (1 i n s)
  show ?case
  proof (cases "s = 0 \<or> n \<le> i")
    case True
    with "1.prems" show ?thesis by (subst (asm) prange_from.simps) simp
  next
    case False
    with "1.prems" have "(a, b) = (i, min (i + s) n) \<or> (a, b) \<in> set (prange_from (i + s) n s)"
      by (subst (asm) prange_from.simps) simp
    then show ?thesis
    proof
      assume "(a, b) = (i, min (i + s) n)"
      with False show ?thesis by auto
    next
      assume "(a, b) \<in> set (prange_from (i + s) n s)"
      with "1.IH" [OF False] show ?thesis by auto
    qed
  qed
qed

lemma prange_from_concat:
  "0 < s \<Longrightarrow> concat (map (\<lambda>(a, b). [a..<b]) (prange_from i n s)) = [i..<n]"
proof (induction i n s rule: prange_from.induct)
  case (1 i n s)
  show ?case
  proof (cases "n \<le> i")
    case True
    then show ?thesis by (subst prange_from.simps) simp
  next
    case False
    with "1.prems" have ns: "\<not> (s = 0 \<or> n \<le> i)" by simp
    have IH: "concat (map (\<lambda>(a, b). [a..<b]) (prange_from (i + s) n s)) = [i + s..<n]"
      using "1.IH" [OF ns "1.prems"] .
    have "concat (map (\<lambda>(a, b). [a..<b]) (prange_from i n s))
            = [i..<min (i + s) n] @ [i + s..<n]"
      using ns IH by (subst prange_from.simps) simp
    also have "\<dots> = [i..<n]"
    proof (cases "i + s \<le> n")
      case True
      then have "min (i + s) n = i + s" by simp
      moreover have "[i..<i + s] @ [i + s..<n] = [i..<n]"
      proof -
        from True obtain d where d: "n = (i + s) + d" using le_Suc_ex by blast
        show ?thesis unfolding d by (rule upt_add_eq_append [symmetric]) simp
      qed
      ultimately show ?thesis by simp
    next
      case False
      then show ?thesis by simp
    qed
    finally show ?thesis .
  qed
qed

lemma prange_from_once:
  "0 < s \<Longrightarrow> length (filter (\<lambda>(a, b). a \<le> k \<and> k < b) (prange_from i n s))
     = (if i \<le> k \<and> k < n then 1 else 0)"
proof (induction i n s rule: prange_from.induct)
  case (1 i n s)
  show ?case
  proof (cases "n \<le> i")
    case True
    then show ?thesis by (subst prange_from.simps) simp
  next
    case False
    with "1.prems" have ns: "\<not> (s = 0 \<or> n \<le> i)" by simp
    have IH: "length (filter (\<lambda>(a, b). a \<le> k \<and> k < b) (prange_from (i + s) n s))
                = (if i + s \<le> k \<and> k < n then 1 else 0)"
      using "1.IH" [OF ns "1.prems"] .
    show ?thesis
      using ns IH "1.prems" by (subst prange_from.simps) auto
  qed
qed


lemma density_loop_pointwise:
  assumes pw: "\<And>cs out. eval_rho ex m (eval_ao ex m cs out) dm = map f cs"
    and "0 < s" "length coords = n" "length rho = n" "i \<le> n"
  shows "density_loop ex m dm coords (prange_from i n s) ao rho
           = Inr (take i rho @ map f (drop i coords))"
  using assms(2-)
proof (induction i n s arbitrary: ao rho rule: prange_from.induct)
  case (1 i n s)
  show ?case
  proof (cases "n \<le> i")
    case True
    with "1.prems" have "i = n" by simp
    with "1.prems" show ?thesis by (subst prange_from.simps) simp
  next
    case False
    with "1.prems" have ns: "\<not> (s = 0 \<or> n \<le> i)" by simp
    define j where "j = min (i + s) n"
    have ij: "i < j" "j \<le> n" using False "1.prems" by (auto simp: j_def)
    define ao' where "ao' = eval_ao ex m (slice coords i j) ao"
    define v where "v = map f (slice coords i j)"
    have ev: "eval_rho ex m ao' dm = v" by (simp add: ao'_def v_def pw)
    have lv: "length v = j - i" using ij "1.prems" by (simp add: v_def slice_def)
    define rho' where "rho' = take i rho @ v @ drop j rho"
    have ss: "setslice rho i j v = Inr rho'"
      using ij "1.prems" lv by (simp add: setslice_def slice_def rho'_def Let_def)
    have lr: "length rho' = n" using ij "1.prems" lv by (simp add: rho'_def)
    have step: "density_loop ex m dm coords (prange_from i n s) ao rho
                  = density_loop ex m dm coords (prange_from (i + s) n s) (Some ao') rho'"
      using ns ev ss
      by (subst prange_from.simps) (simp add: j_def [symmetric] ao'_def [symmetric] Let_def)
    show ?thesis
    proof (cases "i + s \<le> n")
      case True
      then have js: "j = i + s" by (simp add: j_def)
      have IH: "density_loop ex m dm coords (prange_from (i + s) n s) (Some ao') rho'
                  = Inr (take (i + s) rho' @ map f (drop (i + s) coords))"
        using "1.IH" [OF ns "1.prems"(1,2) lr True] .
      have t: "take (i + s) rho' = take i rho @ v"
        using lv js "1.prems" ij by (simp add: rho'_def)
      have "v @ map f (drop (i + s) coords) = map f (drop i coords)"
      proof -
        have "take s (drop i coords) @ drop s (drop i coords) = drop i coords"
          by (rule append_take_drop_id)
        moreover have "drop s (drop i coords) = drop (i + s) coords"
          by (simp add: add.commute)
        ultimately have "map f (drop i coords)
                     = map f (take s (drop i coords)) @ map f (drop (i + s) coords)"
          by (metis map_append)
        then show ?thesis by (simp add: v_def slice_def js)
      qed
      with step IH t show ?thesis by simp
    next
      case False
      then have jn: "j = n" by (simp add: j_def)
      have e: "prange_from (i + s) n s = []"
        using False by (subst prange_from.simps) simp
      have "v = map f (drop i coords)"
        using "1.prems" by (simp add: v_def slice_def jn)
      moreover have "drop j rho = []" using "1.prems" jn by simp
      ultimately show ?thesis using step e by (simp add: rho'_def)
    qed
  qed
qed

lemma density_rho_pointwise:
  assumes pw: "\<And>cs out. eval_rho ex m (eval_ao ex m cs out) dm = map f cs"
    and "0 < b"
  shows "density_rho ex m dm cc b = Inr (map f (get_coords cc))"
proof -
  have "density_loop ex m dm (get_coords cc) (prange_from 0 (get_ngrids cc) b) None
          (np_empty ex (get_ngrids cc))
        = Inr (take 0 (np_empty ex (get_ngrids cc)) @ map f (drop 0 (get_coords cc)))"
    by (rule density_loop_pointwise [OF pw \<open>0 < b\<close>])
       (simp_all add: length_get_coords np_empty_def)
  then show ?thesis using \<open>0 < b\<close> by (simp add: density_rho_def prange_def Let_def)
qed



lemma cube_c_small: "cube_c toy_engine one_atom 2 2 2 = Inr small_grid"
  by (simp add: cube_c_def toy_engine_def one_atom_def small_grid_def)

lemma upt2: "[0..<2] = [0, Suc 0]"
  by (simp add: upt_rec)

lemma coords_small:
  "get_coords small_grid =
     [(- 3, - 3, - 3), (- 3, - 3, 0), (- 3, 0, - 3), (- 3, 0, 0),
      (0, - 3, - 3), (0, - 3, 0), (0, 0, - 3), (0, 0, 0)]"
  by (simp add: get_coords_def small_grid_def upt2)

lemma cube_c_Inr:
  assumes "cube_c ex m nx ny nz = Inr cc"
  shows "0 < nx \<and> 0 < ny \<and> 0 < nz \<and> atoms m \<noteq> [] \<and> cc_mol cc = m
         \<and> cc_nx cc = nat nx \<and> cc_ny cc = nat ny \<and> cc_nz cc = nat nz"
  using assms by (auto simp: cube_c_def Let_def split: if_splits)

lemma cube_c_ngrids:
  assumes "cube_c ex m nx ny nz = Inr cc"
  shows "0 < get_ngrids cc" "get_ngrids cc = nat nx * nat ny * nat nz"
  using cube_c_Inr [OF assms] by (simp_all add: get_ngrids_def)

lemma density_loop_concat:
  assumes sh: "\<And>cs out. length (eval_rho ex m (eval_ao ex m cs out) dm) = length cs"
    and "0 < s" "length coords = n" "length rho = n" "i \<le> n"
  shows "density_loop ex m dm coords (prange_from i n s) ao rho
           = Inr (take i rho @ concat (chunk_values ex m dm coords (prange_from i n s) ao))"
  using assms(2-)
proof (induction i n s arbitrary: ao rho rule: prange_from.induct)
  case (1 i n s)
  show ?case
  proof (cases "n \<le> i")
    case True
    with "1.prems" have "i = n" by simp
    with "1.prems" show ?thesis by (subst (1 2) prange_from.simps) simp
  next
    case False
    with "1.prems" have ns: "\<not> (s = 0 \<or> n \<le> i)" by simp
    define j where "j = min (i + s) n"
    have ij: "i < j" "j \<le> n" using False "1.prems" by (auto simp: j_def)
    define ao' where "ao' = eval_ao ex m (slice coords i j) ao"
    define v where "v = eval_rho ex m ao' dm"
    have lv: "length v = j - i" using ij "1.prems" by (simp add: v_def ao'_def sh slice_def)
    define rho' where "rho' = take i rho @ v @ drop j rho"
    have ss: "setslice rho i j v = Inr rho'"
      using ij "1.prems" lv by (simp add: setslice_def slice_def rho'_def Let_def)
    have lr: "length rho' = n" using ij "1.prems" lv by (simp add: rho'_def)
    have unf: "prange_from i n s = (i, j) # prange_from (i + s) n s"
      using ns by (subst prange_from.simps) (simp add: j_def)
    have step: "density_loop ex m dm coords (prange_from i n s) ao rho
                  = density_loop ex m dm coords (prange_from (i + s) n s) (Some ao') rho'"
      using ss by (simp add: unf ao'_def [symmetric] v_def [symmetric] Let_def)
    have cv: "chunk_values ex m dm coords (prange_from i n s) ao
                = v # chunk_values ex m dm coords (prange_from (i + s) n s) (Some ao')"
      by (simp add: unf ao'_def [symmetric] v_def [symmetric] Let_def)
    show ?thesis
    proof (cases "i + s \<le> n")
      case True
      then have js: "j = i + s" by (simp add: j_def)
      have IH: "density_loop ex m dm coords (prange_from (i + s) n s) (Some ao') rho'
                  = Inr (take (i + s) rho'
                         @ concat (chunk_values ex m dm coords (prange_from (i + s) n s) (Some ao')))"
        using "1.IH" [OF ns "1.prems"(1,2) lr True] .
      have t: "take (i + s) rho' = take i rho @ v"
        using lv js "1.prems" ij by (simp add: rho'_def)
      show ?thesis by (simp add: step IH t cv)
    next
      case False
      then have jn: "j = n" by (simp add: j_def)
      have e: "prange_from (i + s) n s = []"
        using False by (subst prange_from.simps) simp
      have "drop j rho = []" using "1.prems" jn by simp
      then show ?thesis by (simp add: step cv e rho'_def)
    qed
  qed
qed

lemma concat_chunk_values_nth:
  assumes sh: "\<And>cs out. length (eval_rho ex m (eval_ao ex m cs out) dm) = length cs"
    and "0 < s" "length coords = n" "i \<le> n"
    and "j < length (prange_from i n s)"
    and "fst (prange_from i n s ! j) \<le> k" "k < snd (prange_from i n s ! j)"
  shows "concat (chunk_values ex m dm coords (prange_from i n s) ao) ! (k - i)
           = chunk_values ex m dm coords (prange_from i n s) ao ! j
               ! (k - fst (prange_from i n s ! j))"
  using assms(2-)
proof (induction i n s arbitrary: ao j rule: prange_from.induct)
  case (1 i n s)
  have ns: "\<not> (s = 0 \<or> n \<le> i)"
  proof
    assume "s = 0 \<or> n \<le> i"
    then have "prange_from i n s = []" by (subst prange_from.simps) simp
    with "1.prems" show False by simp
  qed
  define e where "e = min (i + s) n"
  define ao' where "ao' = eval_ao ex m (slice coords i e) ao"
  define v where "v = eval_rho ex m ao' dm"
  have ie: "i < e" "e \<le> n" using ns by (auto simp: e_def)
  have lv: "length v = e - i" using ie "1.prems" by (simp add: v_def ao'_def sh slice_def)
  have unf: "prange_from i n s = (i, e) # prange_from (i + s) n s"
    using ns by (subst prange_from.simps) (simp add: e_def)
  have cv: "chunk_values ex m dm coords (prange_from i n s) ao
              = v # chunk_values ex m dm coords (prange_from (i + s) n s) (Some ao')"
    by (simp add: unf ao'_def [symmetric] v_def [symmetric] Let_def)
  show ?case
  proof (cases j)
    case 0
    with "1.prems" unf have "i \<le> k" "k < e" by simp_all
    then have "k - i < length v" using lv by simp
    then show ?thesis using 0 unfolding cv by (simp add: unf nth_append)
  next
    case (Suc j')
    with "1.prems" unf have j': "j' < length (prange_from (i + s) n s)" by simp
    then have ne: "prange_from (i + s) n s \<noteq> []" by auto
    have isn: "i + s \<le> n"
    proof (rule ccontr)
      assume "\<not> i + s \<le> n"
      then have "prange_from (i + s) n s = []" by (subst prange_from.simps) simp
      with ne show False by simp
    qed
    then have es: "e = i + s" by (simp add: e_def)
    have ab: "fst (prange_from (i + s) n s ! j') \<le> k" "k < snd (prange_from (i + s) n s ! j')"
      using "1.prems" unf Suc by simp_all
    have "(fst (prange_from (i + s) n s ! j'), snd (prange_from (i + s) n s ! j'))
            \<in> set (prange_from (i + s) n s)"
      using j' by simp
    then have lo: "i + s \<le> fst (prange_from (i + s) n s ! j')"
      using prange_from_bounds by blast
    have IH: "concat (chunk_values ex m dm coords (prange_from (i + s) n s) (Some ao')) ! (k - (i + s))
                = chunk_values ex m dm coords (prange_from (i + s) n s) (Some ao') ! j'
                    ! (k - fst (prange_from (i + s) n s ! j'))"
      using "1.IH" [OF ns "1.prems"(1,2) isn j' ab] .
    have "\<not> k - i < length v" using lv es lo ab by simp
    moreover have "k - i - length v = k - (i + s)" using lv es by simp
    ultimately show ?thesis using IH Suc unfolding cv by (simp add: unf nth_append)
  qed
qed

text \<open>
  C5. For a grid that \<open>cube_c\<close> has built, and an engine that returns one
  density value per point it is given, the loop of \<open>density\<close> runs over index
  ranges (block size \<open>min 8000 ngrids\<close>) that are non-empty, of length at most
  \<open>min 8000 ngrids\<close>, and that laid end to end are exactly the indices
  \<open>0..<ngrids\<close> in order, so each index lies in exactly one range. The array
  the loop ends with is the engine's arrays for these ranges laid end to end:
  the element at an index is the value written for the one range that holds
  the index, and nothing of the initial content of \<^verbatim>\<open>rho\<close> is left.
\<close>

theorem density_chunks_partition:
  assumes "cube_c ex m nx ny nz = Inr cc"
    and "\<And>cs out. length (eval_rho ex m (eval_ao ex m cs out) dm) = length cs"
  shows "\<exists>chunks. prange 0 (get_ngrids cc) (min 8000 (get_ngrids cc)) = Inr chunks
           \<and> density_on_grid ex m outfile dm cc fs
               = (case density_loop ex m dm (get_coords cc) chunks None
                         (np_empty ex (get_ngrids cc)) of
                    Inl e \<Rightarrow> (Some e, fs)
                  | Inr rho \<Rightarrow> density_finish ex cc rho outfile fs)
           \<and> concat (map (\<lambda>(ip0, ip1). [ip0..<ip1]) chunks) = [0..<get_ngrids cc]
           \<and> (\<forall>(ip0, ip1) \<in> set chunks.
                  ip0 < ip1 \<and> ip1 - ip0 \<le> min 8000 (get_ngrids cc) \<and> ip1 \<le> get_ngrids cc)
           \<and> (\<forall>k < get_ngrids cc.
                  length (filter (\<lambda>(ip0, ip1). ip0 \<le> k \<and> k < ip1) chunks) = 1)
           \<and> density_loop ex m dm (get_coords cc) chunks None (np_empty ex (get_ngrids cc))
               = Inr (concat (chunk_values ex m dm (get_coords cc) chunks None))
           \<and> (\<forall>j < length chunks. \<forall>k. fst (chunks ! j) \<le> k \<and> k < snd (chunks ! j)
                  \<longrightarrow> concat (chunk_values ex m dm (get_coords cc) chunks None) ! k
                        = chunk_values ex m dm (get_coords cc) chunks None ! j
                            ! (k - fst (chunks ! j)))"
proof -
  define n where "n = get_ngrids cc"
  define s where "s = min 8000 n"
  have n: "0 < n" using cube_c_ngrids(1) [OF assms(1)] by (simp add: n_def)
  then have s: "0 < s" by (simp add: s_def)
  have 1: "prange 0 n s = Inr (prange_from 0 n s)" using s by (simp add: prange_def)
  have 2: "concat (map (\<lambda>(ip0, ip1). [ip0..<ip1]) (prange_from 0 n s)) = [0..<n]"
    using s by (rule prange_from_concat)
  have 3: "\<forall>(ip0, ip1) \<in> set (prange_from 0 n s). ip0 < ip1 \<and> ip1 - ip0 \<le> s \<and> ip1 \<le> n"
    using prange_from_bounds [of _ _ 0 n s] by auto
  have 4: "\<forall>k < n. length (filter (\<lambda>(ip0, ip1). ip0 \<le> k \<and> k < ip1) (prange_from 0 n s)) = 1"
    using prange_from_once [OF s, of _ 0 n] by simp
  have 5: "density_on_grid ex m outfile dm cc fs
               = (case density_loop ex m dm (get_coords cc) (prange_from 0 n s) None
                         (np_empty ex n) of
                    Inl e \<Rightarrow> (Some e, fs)
                  | Inr rho \<Rightarrow> density_finish ex cc rho outfile fs)"
    using 1 by (simp add: density_on_grid_def density_rho_def Let_def n_def [symmetric]
                  s_def [symmetric])
  have "density_loop ex m dm (get_coords cc) (prange_from 0 n s) None (np_empty ex n)
               = Inr (take 0 (np_empty ex n)
                      @ concat (chunk_values ex m dm (get_coords cc) (prange_from 0 n s) None))"
    by (rule density_loop_concat [OF assms(2) s])
       (simp_all add: length_get_coords np_empty_def n_def)
  then have 6: "density_loop ex m dm (get_coords cc) (prange_from 0 n s) None (np_empty ex n)
               = Inr (concat (chunk_values ex m dm (get_coords cc) (prange_from 0 n s) None))"
    by simp
  have 7: "\<forall>j < length (prange_from 0 n s). \<forall>k.
              fst (prange_from 0 n s ! j) \<le> k \<and> k < snd (prange_from 0 n s ! j)
                \<longrightarrow> concat (chunk_values ex m dm (get_coords cc) (prange_from 0 n s) None) ! k
                      = chunk_values ex m dm (get_coords cc) (prange_from 0 n s) None ! j
                          ! (k - fst (prange_from 0 n s ! j))"
    using concat_chunk_values_nth [OF assms(2) s, of "get_coords cc" n 0 _ _ None]
    by (simp add: length_get_coords n_def)
  from 1 2 3 4 5 6 7 show ?thesis unfolding n_def [symmetric] s_def [symmetric] by blast
qed


theorem density_chunks_partition_witness:
  "\<exists>cc. cube_c toy_engine one_atom 20 20 50 = Inr cc
      \<and> (\<forall>cs out. length (eval_rho toy_engine one_atom (eval_ao toy_engine one_atom cs out)
                                unit_dm) = length cs)
      \<and> prange 0 (get_ngrids cc) (min 8000 (get_ngrids cc))
            = Inr [(0, 8000), (8000, 16000), (16000, 20000)]
      \<and> (\<exists>chunks. prange 0 (get_ngrids cc) (min 8000 (get_ngrids cc)) = Inr chunks
           \<and> density_on_grid toy_engine one_atom ''den.cube'' unit_dm cc Map.empty
               = (case density_loop toy_engine one_atom unit_dm (get_coords cc) chunks None
                         (np_empty toy_engine (get_ngrids cc)) of
                    Inl e \<Rightarrow> (Some e, Map.empty)
                  | Inr rho \<Rightarrow> density_finish toy_engine cc rho ''den.cube'' Map.empty)
           \<and> concat (map (\<lambda>(ip0, ip1). [ip0..<ip1]) chunks) = [0..<get_ngrids cc]
           \<and> (\<forall>(ip0, ip1) \<in> set chunks.
                  ip0 < ip1 \<and> ip1 - ip0 \<le> min 8000 (get_ngrids cc) \<and> ip1 \<le> get_ngrids cc)
           \<and> (\<forall>k < get_ngrids cc.
                  length (filter (\<lambda>(ip0, ip1). ip0 \<le> k \<and> k < ip1) chunks) = 1)
           \<and> density_loop toy_engine one_atom unit_dm (get_coords cc) chunks None
                 (np_empty toy_engine (get_ngrids cc))
               = Inr (concat (chunk_values toy_engine one_atom unit_dm (get_coords cc) chunks None))
           \<and> (\<forall>j < length chunks. \<forall>k. fst (chunks ! j) \<le> k \<and> k < snd (chunks ! j)
                  \<longrightarrow> concat (chunk_values toy_engine one_atom unit_dm (get_coords cc) chunks None) ! k
                        = chunk_values toy_engine one_atom unit_dm (get_coords cc) chunks None ! j
                            ! (k - fst (chunks ! j))))"
proof -
  obtain cc where cc: "cube_c toy_engine one_atom 20 20 50 = Inr cc"
    using cube_c_ok [of 20 20 50 one_atom toy_engine] by (auto simp: one_atom_def)
  have sh: "\<And>cs out. length (eval_rho toy_engine one_atom (eval_ao toy_engine one_atom cs out)
                                unit_dm) = length cs"
    by (simp add: toy_engine_def)
  have sh': "\<forall>cs out. length (eval_rho toy_engine one_atom (eval_ao toy_engine one_atom cs out)
                                unit_dm) = length cs"
    using sh by blast
  have n: "get_ngrids cc = 20000" using cube_c_ngrids(2) [OF cc] by simp
  have p: "prange 0 (get_ngrids cc) (min 8000 (get_ngrids cc))
             = Inr [(0, 8000), (8000, 16000), (16000, 20000)]"
    unfolding n by (simp add: prange_def prange_from.simps)
  note t = density_chunks_partition [OF cc sh, of "''den.cube''" Map.empty]
  show ?thesis by (rule exI [of _ cc]) (intro conjI cc sh' p t)
qed

text \<open>
  C2. Let the engine evaluate point by point: the density of a batch is the list
  of the densities of its points, whatever buffer is passed as \<^verbatim>\<open>out\<close>. Then for
  every block size from 1 to \<open>ngrids\<close> the array that the loop of \<open>density\<close>
  builds is the array of a single evaluation of all points, and equals the one
  built with block size \<open>ngrids\<close>.
\<close>

theorem chunking_does_not_alter_density:
  assumes "\<And>cs out. eval_rho ex m (eval_ao ex m cs out) dm = map f cs"
    and "1 \<le> blksize" and "blksize \<le> get_ngrids cc"
  shows "density_rho ex m dm cc blksize
           = Inr (eval_rho ex m (eval_ao ex m (get_coords cc) None) dm)
       \<and> density_rho ex m dm cc blksize = density_rho ex m dm cc (get_ngrids cc)"
proof -
  have "density_rho ex m dm cc blksize = Inr (map f (get_coords cc))"
    using assms by (intro density_rho_pointwise) auto
  moreover have "density_rho ex m dm cc (get_ngrids cc) = Inr (map f (get_coords cc))"
    using assms by (intro density_rho_pointwise) auto
  ultimately show ?thesis using assms(1) by simp
qed

theorem chunking_does_not_alter_density_witness:
  "(\<forall>cs out. eval_rho toy_engine one_atom (eval_ao toy_engine one_atom cs out) unit_dm
        = map (\<lambda>(x, y, z). Fin x) cs)
   \<and> (1::nat) \<le> 3 \<and> 3 \<le> get_ngrids small_grid
   \<and> density_rho toy_engine one_atom unit_dm small_grid 3
       = Inr (eval_rho toy_engine one_atom
                (eval_ao toy_engine one_atom (get_coords small_grid) None) unit_dm)
   \<and> density_rho toy_engine one_atom unit_dm small_grid 3
       = density_rho toy_engine one_atom unit_dm small_grid (get_ngrids small_grid)
   \<and> density_rho toy_engine one_atom unit_dm small_grid 3
       = Inr [Fin (- 3), Fin (- 3), Fin (- 3), Fin (- 3), Fin 0, Fin 0, Fin 0, Fin 0]"
proof -
  have pw: "\<And>cs out. eval_rho toy_engine one_atom (eval_ao toy_engine one_atom cs out) unit_dm
              = map (\<lambda>(x, y, z). Fin x) cs"
    by (simp add: toy_engine_def unit_dm_def)
  have n: "get_ngrids small_grid = 8" by (simp add: get_ngrids_def small_grid_def)
  have b: "(1::nat) \<le> 3" "3 \<le> get_ngrids small_grid" by (simp_all add: n)
  have v: "eval_rho toy_engine one_atom
             (eval_ao toy_engine one_atom (get_coords small_grid) None) unit_dm
           = [Fin (- 3), Fin (- 3), Fin (- 3), Fin (- 3), Fin 0, Fin 0, Fin 0, Fin 0]"
    by (simp add: pw coords_small)
  note t = chunking_does_not_alter_density [OF pw b]
  have 1: "density_rho toy_engine one_atom unit_dm small_grid 3
             = Inr (eval_rho toy_engine one_atom
                      (eval_ao toy_engine one_atom (get_coords small_grid) None) unit_dm)"
    using t by (rule conjunct1)
  have 2: "density_rho toy_engine one_atom unit_dm small_grid 3
             = density_rho toy_engine one_atom unit_dm small_grid (get_ngrids small_grid)"
    using t by (rule conjunct2)
  have 3: "density_rho toy_engine one_atom unit_dm small_grid 3
             = Inr [Fin (- 3), Fin (- 3), Fin (- 3), Fin (- 3), Fin 0, Fin 0, Fin 0, Fin 0]"
    by (simp only: 1 v)
  have 0: "\<forall>cs out. eval_rho toy_engine one_atom (eval_ao toy_engine one_atom cs out) unit_dm
              = map (\<lambda>(x, y, z). Fin x) cs"
    using pw by blast
  show ?thesis by (intro conjI 0 b 1 2 3)
qed


section \<open>What density writes\<close>

lemma cube_write_body:
  "\<exists>file. cube_write ex cc field fname comment fs = fs(fname \<mapsto> file)
           \<and> f_body file = data field"
  unfolding cube_write_def by (intro exI conjI, rule refl) simp

text \<open>
  C8. Let the engine evaluate point by point, \<open>f p\<close> being the density it returns
  at the point \<open>p\<close>. Then on a grid that \<open>cube_c\<close> has built, \<open>density\<close> raises
  nothing and writes a file whose values are exactly \<open>f\<close> of the grid points, in
  the grid's order: nothing is clamped or changed, negative values included.
\<close>

theorem density_values_stored_unchanged:
  assumes pw: "\<And>cs out. eval_rho ex m (eval_ao ex m cs out) dm = map f cs"
    and cc: "cube_c ex m nx ny nz = Inr cc"
  shows "\<exists>file. density ex m outfile dm (Some nx) (Some ny) (Some nz) fs
                  = (None, fs(outfile \<mapsto> file))
           \<and> f_body file = map f (get_coords cc)"
proof -
  have n: "0 < get_ngrids cc" by (rule cube_c_ngrids(1) [OF cc])
  have rho: "density_rho ex m dm cc (min 8000 (get_ngrids cc)) = Inr (map f (get_coords cc))"
    using n by (intro density_rho_pointwise [OF pw]) simp
  have "length (map f (get_coords cc)) = cc_nx cc * cc_ny cc * cc_nz cc"
    by (simp add: length_get_coords get_ngrids_def)
  then have "reshape (map f (get_coords cc)) (cc_nx cc) (cc_ny cc) (cc_nz cc)
          = Inr \<lparr>shape = [cc_nx cc, cc_ny cc, cc_nz cc], data = map f (get_coords cc)\<rparr>"
    by (simp add: reshape_def)
  with rho cc have "density ex m outfile dm (Some nx) (Some ny) (Some nz) fs
      = (None, cube_write ex cc \<lparr>shape = [cc_nx cc, cc_ny cc, cc_nz cc],
                                 data = map f (get_coords cc)\<rparr> outfile
                 ''Electron density in real space (e/Bohr^3)'' fs)"
    by (simp add: density_def dflt_def density_on_grid_def density_finish_def)
  with cube_write_body [of ex cc "\<lparr>shape = [cc_nx cc, cc_ny cc, cc_nz cc],
                                 data = map f (get_coords cc)\<rparr>" outfile
                 "''Electron density in real space (e/Bohr^3)''" fs]
  show ?thesis by auto
qed

theorem density_values_stored_unchanged_witness:
  "(\<forall>cs out. eval_rho toy_engine one_atom (eval_ao toy_engine one_atom cs out) unit_dm
        = map (\<lambda>(x, y, z). Fin x) cs)
   \<and> cube_c toy_engine one_atom 2 2 2 = Inr small_grid
   \<and> (\<exists>file. density toy_engine one_atom ''den.cube'' unit_dm (Some 2) (Some 2) (Some 2) Map.empty
                 = (None, [''den.cube'' \<mapsto> file])
         \<and> f_body file = [Fin (- 3), Fin (- 3), Fin (- 3), Fin (- 3), Fin 0, Fin 0, Fin 0, Fin 0])"
proof -
  have pw: "\<And>cs out. eval_rho toy_engine one_atom (eval_ao toy_engine one_atom cs out) unit_dm
              = map (\<lambda>(x, y, z). Fin x) cs"
    by (simp add: toy_engine_def unit_dm_def)
  have 0: "\<forall>cs out. eval_rho toy_engine one_atom (eval_ao toy_engine one_atom cs out) unit_dm
              = map (\<lambda>(x, y, z). Fin x) cs"
    using pw by blast
  have v: "map (\<lambda>(x, y, z). Fin x) (get_coords small_grid)
             = [Fin (- 3), Fin (- 3), Fin (- 3), Fin (- 3), Fin 0, Fin 0, Fin 0, Fin 0]"
    by (simp add: coords_small)
  have "\<exists>file. density toy_engine one_atom ''den.cube'' unit_dm (Some 2) (Some 2) (Some 2) Map.empty
                 = (None, [''den.cube'' \<mapsto> file])
         \<and> f_body file = [Fin (- 3), Fin (- 3), Fin (- 3), Fin (- 3), Fin 0, Fin 0, Fin 0, Fin 0]"
    using density_values_stored_unchanged [OF pw cube_c_small, of "''den.cube''" Map.empty]
    by (simp only: v)
  then show ?thesis by (intro conjI 0 cube_c_small)
qed

text \<open>
  C6. In \<open>density\<close> and in \<open>mep\<close>, when the flat array handed to the reshape does
  not have \<open>nx * ny * nz\<close> entries, the reshape raises ValueError and the files
  are left as they were: nothing is written.
\<close>

theorem reshape_mismatch_is_fatal:
  "(length rho \<noteq> cc_nx cc * cc_ny cc * cc_nz cc
      \<longrightarrow> density_finish ex cc rho outfile fs = (Some ValueError, fs))
   \<and> (length MEP \<noteq> nx * ny * nz
      \<longrightarrow> mep_finish ex cc MEP nx ny nz outfile fs = (Some ValueError, fs))"
  by (simp add: density_finish_def mep_finish_def reshape_def)

theorem reshape_mismatch_is_fatal_witness:
  "length [Fin 1, Fin 2, Fin 3] \<noteq> cc_nx small_grid * cc_ny small_grid * cc_nz small_grid
   \<and> density_finish toy_engine small_grid [Fin 1, Fin 2, Fin 3] ''den.cube'' Map.empty
       = (Some ValueError, Map.empty)
   \<and> length [Fin 1, Fin 2, Fin 3] \<noteq> (2::nat) * 2 * 2
   \<and> mep_finish toy_engine small_grid [Fin 1, Fin 2, Fin 3] 2 2 2 ''pot.cube'' Map.empty
       = (Some ValueError, Map.empty)"
proof -
  have 1: "length [Fin 1, Fin 2, Fin 3] \<noteq> cc_nx small_grid * cc_ny small_grid * cc_nz small_grid"
    by (simp add: small_grid_def)
  have 2: "length [Fin 1, Fin 2, Fin 3] \<noteq> (2::nat) * 2 * 2" by simp
  note t = reshape_mismatch_is_fatal
             [of "[Fin 1, Fin 2, Fin 3]" small_grid toy_engine "''den.cube''" Map.empty
                 "[Fin 1, Fin 2, Fin 3]" 2 2 2]
  note u = reshape_mismatch_is_fatal
             [of "[Fin 1, Fin 2, Fin 3]" small_grid toy_engine "''pot.cube''" Map.empty
                 "[Fin 1, Fin 2, Fin 3]" 2 2 2]
  have 3: "density_finish toy_engine small_grid [Fin 1, Fin 2, Fin 3] ''den.cube'' Map.empty
       = (Some ValueError, Map.empty)"
    using t 1 by blast
  have 4: "mep_finish toy_engine small_grid [Fin 1, Fin 2, Fin 3] 2 2 2 ''pot.cube'' Map.empty
       = (Some ValueError, Map.empty)"
    using u 2 by blast
  show ?thesis by (intro conjI 1 2 3 4)
qed

section \<open>Arithmetic of the values\<close>

lemma np_add_assoc: "np_add (np_add a b) c = np_add a (np_add b c)"
  by (cases a; cases b; cases c) simp_all

lemma np_add_commute: "np_add a b = np_add b a"
  by (cases a; cases b) simp_all

lemma np_add_zero_left: "np_add (Fin 0) a = a"
  by (cases a) simp_all

lemma np_add_zero_right: "np_add a (Fin 0) = a"
  by (cases a) simp_all

lemma isfinite_np_add: "isfinite (np_add a b) \<longleftrightarrow> isfinite a \<and> isfinite b"
  by (cases a; cases b) simp_all

lemma isfinite_np_subtract: "isfinite (np_subtract a b) \<longleftrightarrow> isfinite a \<and> isfinite b"
  by (cases a; cases b) (simp_all add: np_subtract_def)

lemma isfinite_np_divide: "isfinite (np_divide a b) \<longleftrightarrow> b \<noteq> 0"
  by (simp add: np_divide_def)

lemma foldl_np_add: "foldl np_add a xs = np_add a (foldr np_add xs (Fin 0))"
  by (induction xs arbitrary: a) (simp_all add: np_add_zero_right np_add_assoc)

lemma foldl_np_sum: "foldl np_add (Fin 0) xs = np_sum xs"
  by (simp add: foldl_np_add np_sum_def np_add_zero_left)

lemma isfinite_np_sum: "isfinite (np_sum xs) \<longleftrightarrow> list_all isfinite xs"
  by (induction xs) (simp_all add: np_sum_def isfinite_np_add)

lemma spec_distance_zero: "spec_distance r p = 0 \<longleftrightarrow> r = p"
proof -
  obtain r0 r1 r2 where r: "r = (r0, r1, r2)" by (cases r) auto
  obtain p0 p1 p2 where p: "p = (p0, p1, p2)" by (cases p) auto
  have "(r0 - p0)\<^sup>2 + (r1 - p1)\<^sup>2 + (r2 - p2)\<^sup>2 = 0
          \<longleftrightarrow> r0 = p0 \<and> r1 = p1 \<and> r2 = p2"
    by (simp add: sum_power2_eq_zero_iff add_nonneg_eq_0_iff)
  then show ?thesis by (simp add: spec_distance_def r p)
qed

section \<open>The two loops of mep\<close>

lemma nuc_term_formula:
  "nuc_term m coords i
     = map (\<lambda>p. np_divide (real_of_int (atom_charge m i)) (spec_distance (atom_coord m i) p))
           coords"
proof -
  have "einsum_xi_xi (map (vsub r) coords) (map (vsub r) coords)
          = map (\<lambda>p. (spec_distance r p)\<^sup>2) coords" for r
  proof -
    obtain r0 r1 r2 where r: "r = (r0, r1, r2)" by (cases r) auto
    show ?thesis
      by (induction coords)
         (auto simp: einsum_xi_xi_def vsub_def spec_distance_def r power2_eq_square)
  qed
  moreover have "sqrt ((spec_distance r p)\<^sup>2) = spec_distance r p" for r p
    by (cases r; cases p) (simp add: spec_distance_def)
  ultimately show ?thesis by (simp add: nuc_term_def Let_def comp_def)
qed

lemma foldl_py_iadd:
  "foldl (\<lambda>V i. py_iadd V (map (g i) coords)) (NdArray (map h coords)) is
     = NdArray (map (\<lambda>p. foldl np_add (h p) (map (\<lambda>i. g i p) is)) coords)"
proof (induction "is" arbitrary: h)
  case Nil
  then show ?case by simp
next
  case (Cons i "is")
  have "py_iadd (NdArray (map h coords)) (map (g i) coords)
          = NdArray (map (\<lambda>p. np_add (h p) (g i p)) coords)"
    by (simp add: map2_map_map)
  then show ?case using Cons.IH [of "\<lambda>p. np_add (h p) (g i p)"] by simp
qed

lemma foldl_py_iadd_start:
  assumes "is \<noteq> []"
  shows "foldl (\<lambda>V i. py_iadd V (map (g i) coords)) (PyInt 0) is
           = NdArray (map (\<lambda>p. np_sum (map (\<lambda>i. g i p) is)) coords)"
proof -
  from assms obtain i0 rest where e: "is = i0 # rest" by (cases "is") auto
  have "py_iadd (PyInt 0) (map (g i0) coords)
          = NdArray (map (\<lambda>p. np_add (Fin 0) (g i0 p)) coords)"
    by simp
  then have "foldl (\<lambda>V i. py_iadd V (map (g i) coords)) (PyInt 0) is
          = NdArray (map (\<lambda>p. foldl np_add (np_add (Fin 0) (g i0 p)) (map (\<lambda>i. g i p) rest))
                         coords)"
    by (simp add: e foldl_py_iadd)
  also have "\<dots> = NdArray (map (\<lambda>p. np_sum (map (\<lambda>i. g i p) is)) coords)"
    by (simp add: e foldl_np_sum [symmetric])
  finally show ?thesis .
qed

lemma nuclear_potential_formula:
  assumes "atoms m \<noteq> []"
  shows "nuclear_potential m coords = NdArray (map (spec_nuclear_term m) coords)"
proof -
  have ne: "[0..<natm m] \<noteq> []" using assms by (simp add: natm_def)
  have "map (\<lambda>i. np_divide (real_of_int (atom_charge m i)) (spec_distance (atom_coord m i) p))
            [0..<natm m]
          = map (\<lambda>(Z, r). np_divide (real_of_int Z) (spec_distance r p)) (atoms m)" for p
    by (rule nth_equalityI) (simp_all add: natm_def atom_charge_def atom_coord_def case_prod_unfold)
  then show ?thesis
    using foldl_py_iadd_start [OF ne, of
        "\<lambda>i p. np_divide (real_of_int (atom_charge m i)) (spec_distance (atom_coord m i) p)" coords]
    by (simp add: nuclear_potential_def nuc_term_formula spec_nuclear_term_def)
qed

lemma electron_potential_ok:
  assumes "\<And>p. p \<in> set ps \<Longrightarrow> spec_electronic_term ex m dm p = Inr (E p)"
  shows "electron_potential ex m dm ps Vele
           = (if ps = [] then m else m\<lparr>rinv_orig := last ps\<rparr>, Inr (Vele @ map E ps))"
  using assms
proof (induction ps arbitrary: m Vele)
  case Nil
  then show ?case by simp
next
  case (Cons p ps)
  have 1: "einsum_ij_ij (intor_rinv ex (m\<lparr>rinv_orig := p\<rparr>)) dm = Inr (E p)"
    using Cons.prems [of p] by (simp add: spec_electronic_term_def)
  have 2: "spec_electronic_term ex (m\<lparr>rinv_orig := p\<rparr>) dm q = Inr (E q)" if "q \<in> set ps" for q
    using Cons.prems [of q] that by (simp add: spec_electronic_term_def)
  show ?case
    using Cons.IH [of "m\<lparr>rinv_orig := p\<rparr>" "Vele @ [E p]", OF 2] 1
    by (simp add: set_rinv_orig_def)
qed

lemma electron_potential_mol:
  assumes "electron_potential ex m dm ps Vele = (m', Inr V)"
  shows "m' = (if ps = [] then m else m\<lparr>rinv_orig := last ps\<rparr>)"
  using assms
proof (induction ps arbitrary: m Vele)
  case Nil
  then show ?case by simp
next
  case (Cons p ps)
  from Cons.prems obtain v where
    v: "einsum_ij_ij (intor_rinv ex (m\<lparr>rinv_orig := p\<rparr>)) dm = Inr v"
    and r: "electron_potential ex (m\<lparr>rinv_orig := p\<rparr>) dm ps (Vele @ [v]) = (m', Inr V)"
    by (auto simp: set_rinv_orig_def Let_def split: sum.splits)
  from Cons.IH [OF r] show ?case by simp
qed

section \<open>What mep computes\<close>

lemma get_coords_nonempty:
  assumes "cube_c ex m nx ny nz = Inr cc"
  shows "get_coords cc \<noteq> []"
  using cube_c_ngrids(1) [OF assms] length_get_coords [of cc] by auto

lemma map2_subtract_Fin:
  "map2 np_subtract (map N ps) (map (Fin \<circ> E) ps) = map (\<lambda>p. np_subtract (N p) (Fin (E p))) ps"
  by (induction ps) simp_all

lemma mep_result:
  assumes cc: "cube_c ex m nx ny nz = Inr cc"
    and el: "\<And>p. p \<in> set (get_coords cc) \<Longrightarrow> spec_electronic_term ex m dm p = Inr (E p)"
  shows "\<exists>file. mep ex m outfile dm (Some nx) (Some ny) (Some nz) fs
                  = (None, m\<lparr>rinv_orig := last (get_coords cc)\<rparr>, fs(outfile \<mapsto> file))
           \<and> f_body file
               = map (\<lambda>p. np_subtract (spec_nuclear_term m p) (Fin (E p))) (get_coords cc)"
proof -
  define body where
    "body = map (\<lambda>p. np_subtract (spec_nuclear_term m p) (Fin (E p))) (get_coords cc)"
  note c = cube_c_Inr [OF cc]
  have ne: "get_coords cc \<noteq> []" by (rule get_coords_nonempty [OF cc])
  have nuc: "nuclear_potential m (get_coords cc) = NdArray (map (spec_nuclear_term m) (get_coords cc))"
    using c by (intro nuclear_potential_formula) simp
  have ele: "electron_potential ex m dm (get_coords cc) []
               = (m\<lparr>rinv_orig := last (get_coords cc)\<rparr>, Inr (map E (get_coords cc)))"
    using electron_potential_ok [of "get_coords cc" ex m dm E "[]"] el ne by simp
  have vals: "mep_values ex m dm (get_coords cc)
                = (m\<lparr>rinv_orig := last (get_coords cc)\<rparr>, Inr body)"
    by (simp add: mep_values_def nuc ele map2_subtract_Fin body_def)
  have "length body = nat nx * nat ny * nat nz"
    using c by (simp add: body_def length_get_coords get_ngrids_def)
  then have fin: "mep_finish ex cc body (nat nx) (nat ny) (nat nz) outfile fs
               = (None, cube_write ex cc \<lparr>shape = [nat nx, nat ny, nat nz], data = body\<rparr> outfile
                          ''Molecular electrostatic potential in real space'' fs)"
    by (simp add: mep_finish_def reshape_def)
  have "mep ex m outfile dm (Some nx) (Some ny) (Some nz) fs
          = (None, m\<lparr>rinv_orig := last (get_coords cc)\<rparr>,
             cube_write ex cc \<lparr>shape = [nat nx, nat ny, nat nz], data = body\<rparr> outfile
                          ''Molecular electrostatic potential in real space'' fs)"
    by (simp add: mep_def dflt_def cc mep_on_grid_def vals fin)
  with cube_write_body [of ex cc "\<lparr>shape = [nat nx, nat ny, nat nz], data = body\<rparr>" outfile
          "''Molecular electrostatic potential in real space''" fs]
  show ?thesis unfolding body_def [symmetric] by auto
qed

lemma toy_electronic_term:
  "spec_electronic_term toy_engine m unit_dm p = Inr (fst p)"
  by (simp add: spec_electronic_term_def toy_engine_def unit_dm_def einsum_ij_ij_def
        bcast_def bget_def)





lemma cube_c_wide: "cube_c toy_engine two_atoms 2 2 2 = Inr wide_grid"
  by (simp add: cube_c_def toy_engine_def two_atoms_def wide_grid_def)

lemma coords_wide:
  "get_coords wide_grid =
     [(- 3, - 3, - 3), (- 3, - 3, 0), (- 3, 0, - 3), (- 3, 0, 0),
      (1, - 3, - 3), (1, - 3, 0), (1, 0, - 3), (1, 0, 0)]"
  by (simp add: get_coords_def wide_grid_def upt2)



section \<open>The nuclear term under float64 underflow\<close>

lemma f64_tiny_pos: "0 < f64_tiny"
  by (simp add: f64_tiny_def)

lemma f64_flush_square:
  "f64_flush (d * d) = 0 \<longleftrightarrow> d * d \<le> f64_tiny"
  "0 \<le> f64_flush (d * d)"
  "f64_flush (d * d) = 0 \<or> f64_tiny < f64_flush (d * d)"
  using f64_tiny_pos by (auto simp: f64_flush_def abs_if not_le zero_le_mult_iff)

lemma f64_flush_sum:
  assumes "0 \<le> a" "a = 0 \<or> f64_tiny < a" "0 \<le> b" "b = 0 \<or> f64_tiny < b"
  shows "f64_flush (a + b) = a + b"
  using assms f64_tiny_pos by (auto simp: f64_flush_def)

lemma f64_distance_zero:
  "f64_distance (r0, r1, r2) (p0, p1, p2) = 0
     \<longleftrightarrow> (r0 - p0) * (r0 - p0) \<le> f64_tiny \<and> (r1 - p1) * (r1 - p1) \<le> f64_tiny
         \<and> (r2 - p2) * (r2 - p2) \<le> f64_tiny"
proof -
  define q0 where "q0 = f64_flush ((r0 - p0) * (r0 - p0))"
  define q1 where "q1 = f64_flush ((r1 - p1) * (r1 - p1))"
  define q2 where "q2 = f64_flush ((r2 - p2) * (r2 - p2))"
  note q = f64_flush_square [of "r0 - p0"] f64_flush_square [of "r1 - p1"]
           f64_flush_square [of "r2 - p2"]
  have s1: "f64_flush (q0 + q1) = q0 + q1"
    unfolding q0_def q1_def by (rule f64_flush_sum) (rule q)+
  have s1': "q0 + q1 = 0 \<or> f64_tiny < q0 + q1" "0 \<le> q0 + q1"
    using q unfolding q0_def q1_def by linarith+
  have s2: "f64_flush (q0 + q1 + q2) = q0 + q1 + q2"
    using s1' q(8,9) unfolding q2_def by (intro f64_flush_sum) auto
  have "f64_distance (r0, r1, r2) (p0, p1, p2) = sqrt (q0 + q1 + q2)"
    by (simp add: f64_distance_def q0_def [symmetric] q1_def [symmetric] q2_def [symmetric] s1 s2)
  moreover have "q0 + q1 + q2 = 0 \<longleftrightarrow> q0 = 0 \<and> q1 = 0 \<and> q2 = 0"
    using q(2,5,8) unfolding q0_def q1_def q2_def by linarith
  ultimately show ?thesis
    using q(1,4,7) by (simp add: q0_def q1_def q2_def)
qed

lemma f64_distance_zero_vsub:
  "f64_distance r p = 0
     \<longleftrightarrow> (case vsub r p of (d0, d1, d2) \<Rightarrow>
            d0 * d0 \<le> f64_tiny \<and> d1 * d1 \<le> f64_tiny \<and> d2 * d2 \<le> f64_tiny)"
  by (cases r; cases p) (simp add: f64_distance_zero vsub_def)

lemma f64_distance_same: "f64_distance r r = 0"
  using f64_tiny_pos by (cases r) (simp add: f64_distance_zero)

lemma nuc_term_f64_formula:
  "nuc_term_f64 m coords i
     = map (\<lambda>p. np_divide (real_of_int (atom_charge m i)) (f64_distance (atom_coord m i) p))
           coords"
proof -
  have "map sqrt (einsum_xi_xi_f64 (map (vsub r) coords) (map (vsub r) coords))
          = map (f64_distance r) coords" for r
  proof -
    obtain r0 r1 r2 where r: "r = (r0, r1, r2)" by (cases r) auto
    show ?thesis
      by (induction coords) (auto simp: einsum_xi_xi_f64_def vsub_def f64_distance_def r)
  qed
  then have "map (\<lambda>s. np_divide Z (sqrt s)) (einsum_xi_xi_f64 (map (vsub r) coords) (map (vsub r) coords))
          = map (\<lambda>p. np_divide Z (f64_distance r p)) coords" for r Z
    by (metis (no_types, lifting) map_map comp_def map_eq_conv)
  then show ?thesis by (simp add: nuc_term_f64_def Let_def)
qed

lemma nuclear_potential_f64_formula:
  assumes "atoms m \<noteq> []"
  shows "nuclear_potential_f64 m coords = NdArray (map (f64_nuclear_term m) coords)"
proof -
  have ne: "[0..<natm m] \<noteq> []" using assms by (simp add: natm_def)
  have "map (\<lambda>i. np_divide (real_of_int (atom_charge m i)) (f64_distance (atom_coord m i) p))
            [0..<natm m]
          = map (\<lambda>(Z, r). np_divide (real_of_int Z) (f64_distance r p)) (atoms m)" for p
    by (rule nth_equalityI) (simp_all add: natm_def atom_charge_def atom_coord_def case_prod_unfold)
  then show ?thesis
    using foldl_py_iadd_start [OF ne, of
        "\<lambda>i p. np_divide (real_of_int (atom_charge m i)) (f64_distance (atom_coord m i) p)" coords]
    by (simp add: nuclear_potential_f64_def nuc_term_f64_formula f64_nuclear_term_def)
qed

lemma isfinite_f64_nuclear_term:
  "isfinite (f64_nuclear_term m p) \<longleftrightarrow> (\<forall>i < natm m. f64_distance (atom_coord m i) p \<noteq> 0)"
proof -
  have "isfinite (f64_nuclear_term m p)
          \<longleftrightarrow> (\<forall>a \<in> set (atoms m). f64_distance (snd a) p \<noteq> 0)"
    by (auto simp: f64_nuclear_term_def isfinite_np_sum list_all_iff isfinite_np_divide)
  also have "\<dots> \<longleftrightarrow> (\<forall>i < natm m. f64_distance (atom_coord m i) p \<noteq> 0)"
    by (simp add: all_set_conv_all_nth natm_def atom_coord_def)
  finally show ?thesis .
qed

lemma mep_f64_result:
  assumes cc: "cube_c ex m nx ny nz = Inr cc"
    and el: "\<And>p. p \<in> set (get_coords cc) \<Longrightarrow> spec_electronic_term ex m dm p = Inr (E p)"
  shows "\<exists>cf. mep_f64 ex m outfile dm (Some nx) (Some ny) (Some nz) fs
                  = (None, m\<lparr>rinv_orig := last (get_coords cc)\<rparr>, fs(outfile \<mapsto> cf))
           \<and> f_body cf
               = map (\<lambda>p. np_subtract (f64_nuclear_term m p) (Fin (E p))) (get_coords cc)"
proof -
  define body where
    "body = map (\<lambda>p. np_subtract (f64_nuclear_term m p) (Fin (E p))) (get_coords cc)"
  note c = cube_c_Inr [OF cc]
  have ne: "get_coords cc \<noteq> []" by (rule get_coords_nonempty [OF cc])
  have nuc: "nuclear_potential_f64 m (get_coords cc)
               = NdArray (map (f64_nuclear_term m) (get_coords cc))"
    using c by (intro nuclear_potential_f64_formula) simp
  have ele: "electron_potential ex m dm (get_coords cc) []
               = (m\<lparr>rinv_orig := last (get_coords cc)\<rparr>, Inr (map E (get_coords cc)))"
    using electron_potential_ok [of "get_coords cc" ex m dm E "[]"] el ne by simp
  have vals: "mep_values_f64 ex m dm (get_coords cc)
                = (m\<lparr>rinv_orig := last (get_coords cc)\<rparr>, Inr body)"
    by (simp add: mep_values_f64_def nuc ele map2_subtract_Fin body_def)
  have "length body = nat nx * nat ny * nat nz"
    using c by (simp add: body_def length_get_coords get_ngrids_def)
  then have fin: "mep_finish ex cc body (nat nx) (nat ny) (nat nz) outfile fs
               = (None, cube_write ex cc \<lparr>shape = [nat nx, nat ny, nat nz], data = body\<rparr> outfile
                          ''Molecular electrostatic potential in real space'' fs)"
    by (simp add: mep_finish_def reshape_def)
  have "mep_f64 ex m outfile dm (Some nx) (Some ny) (Some nz) fs
          = (None, m\<lparr>rinv_orig := last (get_coords cc)\<rparr>,
             cube_write ex cc \<lparr>shape = [nat nx, nat ny, nat nz], data = body\<rparr> outfile
                          ''Molecular electrostatic potential in real space'' fs)"
    by (simp add: mep_f64_def dflt_def cc mep_on_grid_f64_def vals fin)
  with cube_write_body [of ex cc "\<lparr>shape = [nat nx, nat ny, nat nz], data = body\<rparr>" outfile
          "''Molecular electrostatic potential in real space''" fs]
  show ?thesis unfolding body_def [symmetric] by auto
qed

text \<open>
  C7, as amended. With the products of line 72 rounded as float64 rounds them,
  and under the conditions of C1, \<open>mep\<close> raises nothing, also when a grid point
  lies on an atom. The value written for a grid point is finite exactly when
  the divisor of line 72 is nonzero for every atom. The divisor is zero when
  the point lies on the atom, and more generally exactly when the square of
  each coordinate difference is at most \<open>f64_tiny\<close>; so a point on an atom, or
  that close to one, gets an infinity or a NaN in the file, and for every other
  point the division is well defined.
\<close>

theorem singular_point_propagates_f64:
  assumes "cube_c ex m nx ny nz = Inr cc"
    and "\<And>p. p \<in> set (get_coords cc) \<Longrightarrow> spec_electronic_term ex m dm p = Inr (E p)"
  shows "\<exists>cf m'. mep_f64 ex m outfile dm (Some nx) (Some ny) (Some nz) fs
                     = (None, m', fs(outfile \<mapsto> cf))
           \<and> length (f_body cf) = length (get_coords cc)
           \<and> (\<forall>k < length (get_coords cc).
                 (isfinite (f_body cf ! k)
                    \<longleftrightarrow> (\<forall>i < natm m. f64_distance (atom_coord m i) (get_coords cc ! k) \<noteq> 0))
               \<and> (\<forall>i < natm m.
                     (atom_coord m i = get_coords cc ! k
                        \<longrightarrow> f64_distance (atom_coord m i) (get_coords cc ! k) = 0)
                   \<and> (f64_distance (atom_coord m i) (get_coords cc ! k) = 0
                        \<longleftrightarrow> (case vsub (atom_coord m i) (get_coords cc ! k) of
                               (d0, d1, d2) \<Rightarrow>
                                 d0 * d0 \<le> f64_tiny \<and> d1 * d1 \<le> f64_tiny
                                 \<and> d2 * d2 \<le> f64_tiny))))"
proof -
  from mep_f64_result [OF assms, of outfile fs] obtain cf where
    f: "mep_f64 ex m outfile dm (Some nx) (Some ny) (Some nz) fs
          = (None, m\<lparr>rinv_orig := last (get_coords cc)\<rparr>, fs(outfile \<mapsto> cf))"
       "f_body cf
          = map (\<lambda>p. np_subtract (f64_nuclear_term m p) (Fin (E p))) (get_coords cc)"
    by blast
  have fin: "isfinite (f_body cf ! k)
               \<longleftrightarrow> (\<forall>i < natm m. f64_distance (atom_coord m i) (get_coords cc ! k) \<noteq> 0)"
    if "k < length (get_coords cc)" for k
    using that by (simp add: f isfinite_np_subtract isfinite_f64_nuclear_term)
  show ?thesis
  proof (intro exI conjI allI impI)
    show "mep_f64 ex m outfile dm (Some nx) (Some ny) (Some nz) fs
            = (None, m\<lparr>rinv_orig := last (get_coords cc)\<rparr>, fs(outfile \<mapsto> cf))"
      by (rule f)
    show "length (f_body cf) = length (get_coords cc)" by (simp add: f)
  next
    fix k assume "k < length (get_coords cc)"
    then show "isfinite (f_body cf ! k)
               \<longleftrightarrow> (\<forall>i < natm m. f64_distance (atom_coord m i) (get_coords cc ! k) \<noteq> 0)"
      by (rule fin)
  next
    fix k i assume "atom_coord m i = get_coords cc ! k"
    then show "f64_distance (atom_coord m i) (get_coords cc ! k) = 0"
      by (simp add: f64_distance_same)
  next
    fix k i
    show "f64_distance (atom_coord m i) (get_coords cc ! k) = 0
            \<longleftrightarrow> (case vsub (atom_coord m i) (get_coords cc ! k) of
                   (d0, d1, d2) \<Rightarrow>
                     d0 * d0 \<le> f64_tiny \<and> d1 * d1 \<le> f64_tiny \<and> d2 * d2 \<le> f64_tiny)"
      by (rule f64_distance_zero_vsub)
  qed
qed


theorem singular_point_propagates_f64_witness:
  "cube_c toy_engine one_atom 2 2 2 = Inr small_grid
   \<and> (\<forall>p. spec_electronic_term toy_engine one_atom unit_dm p = Inr (fst p))
   \<and> atom_coord one_atom 0 = get_coords small_grid ! 7
   \<and> (\<exists>cf m'. mep_f64 toy_engine one_atom ''pot.cube'' unit_dm (Some 2) (Some 2) (Some 2)
                     Map.empty
                     = (None, m', [''pot.cube'' \<mapsto> cf])
         \<and> \<not> isfinite (f_body cf ! 7) \<and> isfinite (f_body cf ! 0))"
proof -
  have el: "\<And>p. p \<in> set (get_coords small_grid)
              \<Longrightarrow> spec_electronic_term toy_engine one_atom unit_dm p = Inr (fst p)"
    by (rule toy_electronic_term)
  from singular_point_propagates_f64 [OF cube_c_small el, of "''pot.cube''" Map.empty]
  obtain cf m' where
    1: "mep_f64 toy_engine one_atom ''pot.cube'' unit_dm (Some 2) (Some 2) (Some 2) Map.empty
          = (None, m', [''pot.cube'' \<mapsto> cf])"
    and 3: "\<forall>k < length (get_coords small_grid).
              (isfinite (f_body cf ! k)
                 \<longleftrightarrow> (\<forall>i < natm one_atom.
                        f64_distance (atom_coord one_atom i) (get_coords small_grid ! k) \<noteq> 0))"
    by blast
  have a: "atom_coord one_atom 0 = get_coords small_grid ! 7"
    by (simp add: atom_coord_def one_atom_def coords_small)
  have "isfinite (f_body cf ! 7)
          \<longleftrightarrow> (\<forall>i < natm one_atom.
                 f64_distance (atom_coord one_atom i) (get_coords small_grid ! 7) \<noteq> 0)"
    using 3 by (simp add: coords_small)
  then have 4: "\<not> isfinite (f_body cf ! 7)"
    by (simp add: natm_def atom_coord_def one_atom_def coords_small f64_distance_same)
  have "isfinite (f_body cf ! 0)
          \<longleftrightarrow> (\<forall>i < natm one_atom.
                 f64_distance (atom_coord one_atom i) (get_coords small_grid ! 0) \<noteq> 0)"
    using 3 by (simp add: coords_small)
  then have 5: "isfinite (f_body cf ! 0)"
    by (simp add: natm_def atom_coord_def one_atom_def coords_small f64_distance_zero
          f64_tiny_def)
  show ?thesis
    using 1 4 5 a cube_c_small toy_electronic_term by blast
qed

lemma near_eps_pos: "0 < near_eps"
  by (simp add: near_eps_def)

lemma near_underflow: "near_eps * near_eps \<le> f64_tiny"
  by (simp add: near_eps_def f64_tiny_def)

lemma cube_c_near: "cube_c toy_engine near_atoms 2 2 2 = Inr near_grid"
  using near_eps_pos
  by (simp add: cube_c_def toy_engine_def near_atoms_def near_grid_def min_def max_def)

lemma coords_near_last: "get_coords near_grid ! 7 = (0, 0, 0)"
  by (simp add: get_coords_def near_grid_def upt2 add_divide_distrib)

lemma coords_near_length: "length (get_coords near_grid) = 8"
  by (simp add: length_get_coords get_ngrids_def near_grid_def)

lemma near_distance:
  "f64_distance (near_eps, 0, 0) (0, 0, 0) = 0"
  "f64_distance (- near_eps, 0, 0) (0, 0, 0) = 0"
  using near_underflow f64_tiny_pos by (simp_all add: f64_distance_zero)

lemma near_term: "f64_nuclear_term near_atoms (0, 0, 0) = PInf"
  by (simp add: f64_nuclear_term_def near_atoms_def near_distance np_sum_def np_divide_def)

text \<open>
  C7 as first stated fails: the last point of \<open>near_grid\<close> is the origin, which
  lies on neither atom of \<open>near_atoms\<close>, yet the divisor of line 72 for the first
  atom is zero there, the quotient is an infinity, and \<open>mep\<close> writes it without
  raising.
\<close>

theorem close_point_counterexample:
  "cube_c toy_engine near_atoms 2 2 2 = Inr near_grid
   \<and> get_coords near_grid ! 7 = (0, 0, 0)
   \<and> natm near_atoms = 2
   \<and> atom_coord near_atoms 0 \<noteq> get_coords near_grid ! 7
   \<and> atom_coord near_atoms 1 \<noteq> get_coords near_grid ! 7
   \<and> f64_distance (atom_coord near_atoms 0) (get_coords near_grid ! 7) = 0
   \<and> nuc_term_f64 near_atoms (get_coords near_grid) 0 ! 7 = PInf
   \<and> fst (mep_f64 toy_engine near_atoms ''pot.cube'' unit_dm (Some 2) (Some 2) (Some 2)
            Map.empty) = None
   \<and> f_body (the (snd (snd (mep_f64 toy_engine near_atoms ''pot.cube'' unit_dm
                                 (Some 2) (Some 2) (Some 2) Map.empty)) ''pot.cube'')) ! 7
       = PInf"
proof -
  have el: "\<And>p. p \<in> set (get_coords near_grid)
              \<Longrightarrow> spec_electronic_term toy_engine near_atoms unit_dm p = Inr (fst p)"
    by (rule toy_electronic_term)
  from mep_f64_result [OF cube_c_near el, of "''pot.cube''" Map.empty] obtain cf where
    f: "mep_f64 toy_engine near_atoms ''pot.cube'' unit_dm (Some 2) (Some 2) (Some 2) Map.empty
          = (None, near_atoms\<lparr>rinv_orig := last (get_coords near_grid)\<rparr>,
             [''pot.cube'' \<mapsto> cf])"
       "f_body cf
          = map (\<lambda>p. np_subtract (f64_nuclear_term near_atoms p) (Fin (fst p)))
                (get_coords near_grid)"
    by blast
  have 3: "natm near_atoms = 2" by (simp add: natm_def near_atoms_def)
  have 4: "atom_coord near_atoms 0 \<noteq> get_coords near_grid ! 7"
    using near_eps_pos by (simp add: atom_coord_def near_atoms_def coords_near_last)
  have 5: "atom_coord near_atoms 1 \<noteq> get_coords near_grid ! 7"
    using near_eps_pos by (simp add: atom_coord_def near_atoms_def coords_near_last)
  have 6: "f64_distance (atom_coord near_atoms 0) (get_coords near_grid ! 7) = 0"
    by (simp add: atom_coord_def near_atoms_def coords_near_last near_distance)
  have "nuc_term_f64 near_atoms (get_coords near_grid) 0 ! 7
          = np_divide (real_of_int (atom_charge near_atoms 0))
              (f64_distance (atom_coord near_atoms 0) (get_coords near_grid ! 7))"
    by (simp add: nuc_term_f64_formula coords_near_length)
  also have "\<dots> = np_divide (real_of_int (atom_charge near_atoms 0)) 0"
    by (simp only: 6)
  also have "\<dots> = PInf"
    by (simp add: atom_charge_def near_atoms_def np_divide_def)
  finally have 7: "nuc_term_f64 near_atoms (get_coords near_grid) 0 ! 7 = PInf" .
  have 8: "fst (mep_f64 toy_engine near_atoms ''pot.cube'' unit_dm (Some 2) (Some 2) (Some 2)
            Map.empty) = None"
    by (simp add: f)
  have "f_body cf ! 7 = np_subtract (f64_nuclear_term near_atoms (get_coords near_grid ! 7))
                          (Fin (fst (get_coords near_grid ! 7)))"
    by (simp add: f coords_near_length)
  then have "f_body cf ! 7 = PInf"
    by (simp add: coords_near_last near_term np_subtract_def)
  then have 9: "f_body (the (snd (snd (mep_f64 toy_engine near_atoms ''pot.cube'' unit_dm
                                 (Some 2) (Some 2) (Some 2) Map.empty)) ''pot.cube'')) ! 7
       = PInf"
    by (simp add: f)
  show ?thesis by (intro conjI cube_c_near coords_near_last 3 4 5 6 7 8 9)
qed

lemma fold_set_rinv_orig:
  "fold (\<lambda>p mm. set_rinv_orig mm p) ps m = (if ps = [] then m else m\<lparr>rinv_orig := last ps\<rparr>)"
  by (induction ps arbitrary: m) (simp_all add: set_rinv_orig_def)

text \<open>
  C9. When \<open>mep\<close> returns normally, the molecule it leaves behind is the one
  obtained by applying \<open>set_rinv_orig\<close> once for each grid point in order: the
  molecule given, with its origin at the last grid point. Nothing restores
  the origin, so the molecule differs from the one given unless its origin was
  already there.
\<close>

theorem mep_leaves_origin_at_last_point:
  assumes "mep ex m outfile dm nx ny nz fs = (None, m', fs')"
  shows "\<exists>cc. cube_c ex m (dflt 80 nx) (dflt 80 ny) (dflt 80 nz) = Inr cc
           \<and> m' = fold (\<lambda>p mm. set_rinv_orig mm p) (get_coords cc) m
           \<and> m' = m\<lparr>rinv_orig := last (get_coords cc)\<rparr>
           \<and> (rinv_orig m \<noteq> last (get_coords cc) \<longrightarrow> m' \<noteq> m)"
proof -
  from assms obtain cc where
    cc: "cube_c ex m (dflt 80 nx) (dflt 80 ny) (dflt 80 nz) = Inr cc"
    and g: "mep_on_grid ex m outfile dm (nat (dflt 80 nx)) (nat (dflt 80 ny)) (nat (dflt 80 nz))
              cc fs = (None, m', fs')"
    by (auto simp: mep_def split: sum.splits)
  from g obtain MEP where v: "mep_values ex m dm (get_coords cc) = (m', Inr MEP)"
    by (auto simp: mep_on_grid_def split: prod.splits sum.splits)
  then obtain Vele where e: "electron_potential ex m dm (get_coords cc) [] = (m', Inr Vele)"
    by (auto simp: mep_values_def split: prod.splits sum.splits)
  have ne: "get_coords cc \<noteq> []" by (rule get_coords_nonempty [OF cc])
  from electron_potential_mol [OF e] ne
  have m': "m' = m\<lparr>rinv_orig := last (get_coords cc)\<rparr>" by simp
  have "m' \<noteq> m" if "rinv_orig m \<noteq> last (get_coords cc)"
  proof
    assume "m' = m"
    then have "rinv_orig m' = rinv_orig m" by simp
    with m' that show False by simp
  qed
  with cc m' ne show ?thesis by (simp add: fold_set_rinv_orig)
qed

theorem mep_leaves_origin_at_last_point_witness:
  "\<exists>m' fs'. mep toy_engine two_atoms ''pot.cube'' unit_dm (Some 2) (Some 2) (Some 2) Map.empty
               = (None, m', fs')
      \<and> rinv_orig two_atoms = (0, 0, 0)
      \<and> last (get_coords wide_grid) = (1, 0, 0)
      \<and> rinv_orig m' = (1, 0, 0)
      \<and> m' \<noteq> two_atoms"
proof -
  have el: "\<And>p. p \<in> set (get_coords wide_grid)
              \<Longrightarrow> spec_electronic_term toy_engine two_atoms unit_dm p = Inr (fst p)"
    by (rule toy_electronic_term)
  from mep_result [OF cube_c_wide el, of "''pot.cube''" Map.empty]
  obtain m' fs' where
    r: "mep toy_engine two_atoms ''pot.cube'' unit_dm (Some 2) (Some 2) (Some 2) Map.empty
          = (None, m', fs')"
    by blast
  from mep_leaves_origin_at_last_point [OF r] cube_c_wide
  have t: "m' = two_atoms\<lparr>rinv_orig := last (get_coords wide_grid)\<rparr>"
    "rinv_orig two_atoms \<noteq> last (get_coords wide_grid) \<longrightarrow> m' \<noteq> two_atoms"
    by (auto simp: dflt_def)
  have l: "last (get_coords wide_grid) = (1, 0, 0)" by (simp add: coords_wide)
  have o: "rinv_orig two_atoms = (0, 0, 0)" by (simp add: two_atoms_def)
  have 1: "rinv_orig m' = (1, 0, 0)" using t(1) l by simp
  have 2: "m' \<noteq> two_atoms" using t(2) l o by simp
  show ?thesis using r o l 1 2 by blast
qed

end
